theory Spec2Isabelle
  imports Complex_Main "HOL-Library.Sublist" "HOL-Library.Multiset"
begin

section \<open>JavaScript numbers\<close>

text \<open>
  A JavaScript number is modelled as a real number or one of the three special values
  of IEEE arithmetic. The special values follow the language: \<open>0/0\<close> is \<open>NaN\<close>, \<open>x/0\<close> is
  an infinity for \<open>x \<noteq> 0\<close>, \<open>NaN\<close> propagates through every operation, and the value
  \<open>undefined\<close> read from a missing array slot behaves as \<open>NaN\<close> in arithmetic. The sign
  of zero is not part of the model.

  This section has the operations on these values with exact results for finite
  arguments. An operation of the language is the exact operation followed by rounding to
  the nearest 64-bit double; the rounded operations are in the next section. The
  calibration fit and the training script (split and scaler) are modelled with the
  rounded operations. The shrinkage of the calibration, the derived age and the
  prediction service are stated with the exact ones: what is said about them is the
  formula that the code evaluates.
\<close>

datatype jsnum = Fin real | PInf | NInf | NaN

fun is_fin :: "jsnum \<Rightarrow> bool" where
  "is_fin (Fin _) = True"
| "is_fin _ = False"

fun the_fin :: "jsnum \<Rightarrow> real" where
  "the_fin (Fin x) = x"
| "the_fin _ = 0"

fun sign_of :: "jsnum \<Rightarrow> real" where
  "sign_of (Fin x) = sgn x"
| "sign_of PInf = 1"
| "sign_of NInf = - 1"
| "sign_of NaN = 0"

definition signed_inf :: "real \<Rightarrow> jsnum" where
  "signed_inf s = (if 0 < s then PInf else if s < 0 then NInf else NaN)"

fun js_neg :: "jsnum \<Rightarrow> jsnum" where
  "js_neg (Fin x) = Fin (- x)"
| "js_neg PInf = NInf"
| "js_neg NInf = PInf"
| "js_neg NaN = NaN"

fun js_add :: "jsnum \<Rightarrow> jsnum \<Rightarrow> jsnum" where
  "js_add (Fin x) (Fin y) = Fin (x + y)"
| "js_add NaN _ = NaN"
| "js_add _ NaN = NaN"
| "js_add PInf NInf = NaN"
| "js_add NInf PInf = NaN"
| "js_add PInf _ = PInf"
| "js_add _ PInf = PInf"
| "js_add NInf _ = NInf"
| "js_add _ NInf = NInf"

definition js_sub :: "jsnum \<Rightarrow> jsnum \<Rightarrow> jsnum" where
  "js_sub x y = js_add x (js_neg y)"

fun js_mul :: "jsnum \<Rightarrow> jsnum \<Rightarrow> jsnum" where
  "js_mul (Fin x) (Fin y) = Fin (x * y)"
| "js_mul NaN _ = NaN"
| "js_mul _ NaN = NaN"
| "js_mul x y = signed_inf (sign_of x * sign_of y)"

fun js_div :: "jsnum \<Rightarrow> jsnum \<Rightarrow> jsnum" where
  "js_div (Fin x) (Fin y) = (if y = 0 then signed_inf (sgn x) else Fin (x / y))"
| "js_div NaN _ = NaN"
| "js_div _ NaN = NaN"
| "js_div (Fin x) _ = Fin 0"
| "js_div x (Fin y) = signed_inf (sign_of x * (if y < 0 then - 1 else 1))"
| "js_div _ _ = NaN"

text \<open>\<^verbatim>\<open>Math.pow(x, 2)\<close>, \<^verbatim>\<open>Math.sqrt\<close>, \<^verbatim>\<open>Math.max\<close>, \<^verbatim>\<open>Math.round\<close> (ties go up),
  \<^verbatim>\<open>isNaN\<close> and \<^verbatim>\<open><\<close>.\<close>

definition js_pow2 :: "jsnum \<Rightarrow> jsnum" where
  "js_pow2 x = js_mul x x"

fun js_sqrt :: "jsnum \<Rightarrow> jsnum" where
  "js_sqrt (Fin x) = (if x < 0 then NaN else Fin (sqrt x))"
| "js_sqrt PInf = PInf"
| "js_sqrt NInf = NaN"
| "js_sqrt NaN = NaN"

fun js_max :: "jsnum \<Rightarrow> jsnum \<Rightarrow> jsnum" where
  "js_max (Fin x) (Fin y) = Fin (max x y)"
| "js_max NaN _ = NaN"
| "js_max _ NaN = NaN"
| "js_max PInf _ = PInf"
| "js_max _ PInf = PInf"
| "js_max NInf y = y"
| "js_max x NInf = x"

fun js_round :: "jsnum \<Rightarrow> jsnum" where
  "js_round (Fin x) = Fin (of_int \<lfloor>x + 1 / 2\<rfloor>)"
| "js_round x = x"

fun js_isNaN :: "jsnum \<Rightarrow> bool" where
  "js_isNaN NaN = True"
| "js_isNaN _ = False"

fun js_lt :: "jsnum \<Rightarrow> jsnum \<Rightarrow> bool" where
  "js_lt (Fin x) (Fin y) = (x < y)"
| "js_lt NaN _ = False"
| "js_lt _ NaN = False"
| "js_lt NInf NInf = False"
| "js_lt NInf _ = True"
| "js_lt _ NInf = False"
| "js_lt PInf _ = False"
| "js_lt _ PInf = True"

text \<open>Reading slot \<open>i\<close> of a number array; a slot past the end is \<open>undefined\<close>.\<close>

definition num_at :: "jsnum list \<Rightarrow> nat \<Rightarrow> jsnum" where
  "num_at xs i = (if i < length xs then xs ! i else NaN)"

text \<open>
  A number as it appears in a JSON file. \<^verbatim>\<open>JSON.stringify\<close> writes \<^verbatim>\<open>null\<close> for \<open>NaN\<close> and
  for the infinities; read back, \<^verbatim>\<open>null\<close> converts to \<open>0\<close> in arithmetic.
\<close>

datatype json_num = JsonNum real | JsonNull

fun stringify_num :: "jsnum \<Rightarrow> json_num" where
  "stringify_num (Fin x) = JsonNum x"
| "stringify_num _ = JsonNull"

fun to_number :: "json_num \<Rightarrow> jsnum" where
  "to_number (JsonNum x) = Fin x"
| "to_number JsonNull = Fin 0"

section \<open>Rounding to 64-bit doubles\<close>

text \<open>
  Rounding to the nearest integer, ties to the even one.
\<close>

definition round_half_even :: "real \<Rightarrow> int" where
  "round_half_even y =
    (let f = \<lfloor>y\<rfloor>; d = y - of_int f
     in if d < 1 / 2 then f else if 1 / 2 < d then f + 1 else if even f then f else f + 1)"

text \<open>
  The doubles between \<open>2\<^sup>e\<close> and \<open>2\<^sup>e\<^sup>+\<^sup>1\<close> are the multiples of \<open>2\<^sup>e\<^sup>-\<^sup>5\<^sup>2\<close> (53 significant
  bits); below \<open>2\<^sup>-\<^sup>1\<^sup>0\<^sup>2\<^sup>2\<close> they are the multiples of \<open>2\<^sup>-\<^sup>1\<^sup>0\<^sup>7\<^sup>4\<close>. \<open>nearest x\<close> is the
  multiple nearest to \<open>x\<close>, ties to the even multiple; a result of magnitude \<open>2\<^sup>1\<^sup>0\<^sup>2\<^sup>4\<close> is
  beyond the largest double and becomes an infinity.
\<close>

definition binade :: "real \<Rightarrow> int" where
  "binade x = max \<lfloor>log 2 \<bar>x\<bar>\<rfloor> (- 1022)"

definition ulp :: "real \<Rightarrow> real" where
  "ulp x = 2 powi (binade x - 52)"

definition nearest :: "real \<Rightarrow> real" where
  "nearest x = (if x = 0 then 0 else of_int (round_half_even (x / ulp x)) * ulp x)"

definition round64 :: "real \<Rightarrow> jsnum" where
  "round64 x = (if 2 ^ 1024 \<le> \<bar>nearest x\<bar> then signed_inf (nearest x) else Fin (nearest x))"

fun rounded :: "jsnum \<Rightarrow> jsnum" where
  "rounded (Fin x) = round64 x"
| "rounded v = v"

text \<open>
  The operations \<^verbatim>\<open>+\<close>, \<^verbatim>\<open>-\<close>, \<^verbatim>\<open>*\<close>, \<^verbatim>\<open>/\<close> and \<^verbatim>\<open>Math.sqrt\<close> on doubles: the exact result,
  rounded. \<^verbatim>\<open>Math.pow(x, 2)\<close> is taken to be the rounded square.
\<close>

definition d_add :: "jsnum \<Rightarrow> jsnum \<Rightarrow> jsnum" where
  "d_add x y = rounded (js_add x y)"

definition d_sub :: "jsnum \<Rightarrow> jsnum \<Rightarrow> jsnum" where
  "d_sub x y = rounded (js_sub x y)"

definition d_mul :: "jsnum \<Rightarrow> jsnum \<Rightarrow> jsnum" where
  "d_mul x y = rounded (js_mul x y)"

definition d_div :: "jsnum \<Rightarrow> jsnum \<Rightarrow> jsnum" where
  "d_div x y = rounded (js_div x y)"

definition d_sqrt :: "jsnum \<Rightarrow> jsnum" where
  "d_sqrt x = rounded (js_sqrt x)"

definition d_pow2 :: "jsnum \<Rightarrow> jsnum" where
  "d_pow2 x = rounded (js_pow2 x)"


fun js_rem :: "jsnum \<Rightarrow> jsnum \<Rightarrow> jsnum" where
  "js_rem (Fin x) (Fin y) =
     (if y = 0 then NaN
      else Fin (x - y * of_int (if 0 \<le> x / y then \<lfloor>x / y\<rfloor> else \<lceil>x / y\<rceil>)))"
| "js_rem NaN _ = NaN"
| "js_rem _ NaN = NaN"
| "js_rem PInf _ = NaN"
| "js_rem NInf _ = NaN"
| "js_rem (Fin x) _ = Fin x"

section \<open>Strings\<close>

text \<open>
  A string of the language is a sequence of 16-bit code units, here natural numbers. The
  string literals of the program are ASCII texts; \<open>ustr\<close> gives the code units of one.
  The keys that the program looks up in an object and the messages that it builds are
  such texts too and stay HOL strings.
\<close>

type_synonym jsstring = "nat list"

definition ustr :: "string \<Rightarrow> jsstring" where
  "ustr s = map of_char s"

definition code_unit :: "char \<Rightarrow> nat" where
  "code_unit c = of_char c"

text \<open>
  White space and line terminators, the characters that \<^verbatim>\<open>parseFloat\<close>, the conversion of
  a string to a number and \<^verbatim>\<open>trim\<close> skip: tab, line feed, vertical tab, form feed,
  carriage return, space, no-break space, U+1680, U+2000 to U+200A, the line and
  paragraph separators, U+202F, U+205F, U+3000 and the byte order mark.
\<close>

definition is_space :: "nat \<Rightarrow> bool" where
  "is_space c \<longleftrightarrow>
     c \<in> set [0x09, 0x0A, 0x0B, 0x0C, 0x0D, 0x20, 0xA0, 0x1680, 0x2028, 0x2029, 0x202F,
               0x205F, 0x3000, 0xFEFF] \<or>
     (0x2000 \<le> c \<and> c \<le> 0x200A)"

section \<open>Reading a number from a string\<close>

text \<open>
  \<^verbatim>\<open>parseFloat\<close> on a string skips leading white space and reads the longest prefix that
  is a decimal literal: an optional sign, then \<^verbatim>\<open>Infinity\<close> or digits with an optional
  fraction and an optional exponent. Whatever follows the prefix is ignored; with no such
  prefix the result is \<open>NaN\<close>.
\<close>

definition is_digit :: "nat \<Rightarrow> bool" where
  "is_digit c = (c \<in> set (ustr ''0123456789''))"

definition digit_val :: "nat \<Rightarrow> nat" where
  "digit_val c = c - 48"

definition digits_val :: "jsstring \<Rightarrow> nat" where
  "digits_val ds = foldl (\<lambda>n c. 10 * n + digit_val c) 0 ds"

definition scale10 :: "real \<Rightarrow> int \<Rightarrow> real" where
  "scale10 m e = (if 0 \<le> e then m * 10 ^ nat e else m / 10 ^ nat (- e))"

definition exponent_part :: "jsstring \<Rightarrow> int" where
  "exponent_part r =
    (case r of
       [] \<Rightarrow> 0
     | e # r1 \<Rightarrow>
         if e = code_unit CHR ''e'' \<or> e = code_unit CHR ''E'' then
           (case r1 of
              [] \<Rightarrow> 0
            | sg # r2 \<Rightarrow>
                if (sg = code_unit CHR ''+'' \<or> sg = code_unit CHR ''-'') \<and>
                   takeWhile is_digit r2 \<noteq> [] then
                  (if sg = code_unit CHR ''-'' then - int (digits_val (takeWhile is_digit r2))
                   else int (digits_val (takeWhile is_digit r2)))
                else int (digits_val (takeWhile is_digit r1)))
         else 0)"

definition unsigned_decimal :: "jsstring \<Rightarrow> jsnum" where
  "unsigned_decimal s =
    (if prefix (ustr ''Infinity'') s then PInf
     else
       let ip = takeWhile is_digit s;
           r1 = dropWhile is_digit s;
           dot = (case r1 of [] \<Rightarrow> False | c # _ \<Rightarrow> c = code_unit CHR ''.'');
           fp = (if dot then takeWhile is_digit (tl r1) else []);
           r2 = (if dot then dropWhile is_digit (tl r1) else r1)
       in if ip = [] \<and> fp = [] then NaN
          else Fin (scale10 (real (digits_val ip) + real (digits_val fp) / 10 ^ length fp)
                     (exponent_part r2)))"

definition parseFloat_string :: "jsstring \<Rightarrow> jsnum" where
  "parseFloat_string s =
    (case dropWhile is_space s of
       [] \<Rightarrow> NaN
     | c # r \<Rightarrow>
         if c = code_unit CHR ''-'' then js_neg (unsigned_decimal r)
         else if c = code_unit CHR ''+'' then unsigned_decimal r
         else unsigned_decimal (c # r))"

section \<open>Calibration fit (calibration\_fit.js)\<close>

record calibration =
  a :: jsnum
  b :: jsnum

text \<open>
  \<^verbatim>\<open>linearRegression(X, y)\<close>: the four \<^verbatim>\<open>reduce\<close> calls are left folds; \<^verbatim>\<open>y[i]\<close> is read
  at the index of the element of \<open>X\<close>. There is no test of the denominator.
\<close>

definition linearRegression :: "jsnum list \<Rightarrow> jsnum list \<Rightarrow> calibration" where
  "linearRegression X y =
    (let n = Fin (of_nat (length X));
         sumX = foldl (\<lambda>a b. d_add a b) (Fin 0) X;
         sumY = foldl (\<lambda>a b. d_add a b) (Fin 0) y;
         sumXY = foldl (\<lambda>sum (x, i). d_add sum (d_mul x (num_at y i))) (Fin 0)
                   (zip X [0..<length X]);
         sumX2 = foldl (\<lambda>sum x. d_add sum (d_mul x x)) (Fin 0) X;
         meanX = d_div sumX n;
         meanY = d_div sumY n;
         a = d_div (d_sub sumXY (d_mul (d_mul n meanX) meanY))
                   (d_sub sumX2 (d_mul (d_mul n meanX) meanX));
         b = d_sub meanY (d_mul a meanX)
     in \<lparr>a = a, b = b\<rparr>)"

text \<open>
  The part of \<^verbatim>\<open>main\<close> after the predictions are available: fit, shrink towards the
  identity with \<open>alpha = 0.3\<close>, and build the object that is written to \<^verbatim>\<open>calib.json\<close>.
\<close>

definition shrink :: "calibration \<Rightarrow> calibration" where
  "shrink c =
    (let alpha = Fin (3 / 10);
         aFinal = js_add (js_mul (js_sub (Fin 1) alpha) (a c)) (js_mul alpha (Fin 1));
         bFinal = js_add (js_mul (js_sub (Fin 1) alpha) (b c)) (js_mul alpha (Fin 0))
     in \<lparr>a = aFinal, b = bFinal\<rparr>)"

definition calibration_main :: "jsnum list \<Rightarrow> jsnum list \<Rightarrow> calibration" where
  "calibration_main yPred yTrue = shrink (linearRegression yPred yTrue)"

text \<open>The fields of \<^verbatim>\<open>calib.json\<close> as \<^verbatim>\<open>JSON.stringify(calibration)\<close> writes them.\<close>

definition written_calibration :: "calibration \<Rightarrow> (string \<times> json_num) list" where
  "written_calibration c = [(''a'', stringify_num (a c)), (''b'', stringify_num (b c))]"

section \<open>Training (train\_and\_serialize.js): preprocessing\<close>

text \<open>
  A record of the table is an object from column names to cells. With dynamic typing the
  CSV reader gives numbers, booleans, \<^verbatim>\<open>null\<close> for an empty cell, and strings for the rest.
\<close>

datatype cell = CNum jsnum | CStr jsstring | CBool bool | CNull

type_synonym row = "string \<rightharpoonup> cell"

text \<open>
  The conversion of a string to a number in arithmetic: the trimmed string is empty
  (\<open>0\<close>), or the whole of it is a decimal literal, or a binary, octal or hexadecimal
  integer literal; else \<open>NaN\<close>.
\<close>

definition trim :: "jsstring \<Rightarrow> jsstring" where
  "trim s = rev (dropWhile is_space (rev (dropWhile is_space s)))"

definition exponent_len :: "jsstring \<Rightarrow> nat" where
  "exponent_len r =
    (case r of
       [] \<Rightarrow> 0
     | e # r1 \<Rightarrow>
         if e = code_unit CHR ''e'' \<or> e = code_unit CHR ''E'' then
           (case r1 of
              [] \<Rightarrow> 0
            | sg # r2 \<Rightarrow>
                if (sg = code_unit CHR ''+'' \<or> sg = code_unit CHR ''-'') \<and>
                   takeWhile is_digit r2 \<noteq> [] then
                  2 + length (takeWhile is_digit r2)
                else if takeWhile is_digit r1 \<noteq> [] then 1 + length (takeWhile is_digit r1)
                else 0)
         else 0)"

text \<open>The part of a string that \<open>unsigned_decimal\<close> does not read.\<close>

definition unsigned_decimal_rest :: "jsstring \<Rightarrow> jsstring" where
  "unsigned_decimal_rest s =
    (if prefix (ustr ''Infinity'') s then drop 8 s
     else
       let ip = takeWhile is_digit s;
           r1 = dropWhile is_digit s;
           dot = (case r1 of [] \<Rightarrow> False | c # _ \<Rightarrow> c = code_unit CHR ''.'');
           fp = (if dot then takeWhile is_digit (tl r1) else []);
           r2 = (if dot then dropWhile is_digit (tl r1) else r1)
       in if ip = [] \<and> fp = [] then s else drop (exponent_len r2) r2)"

definition radix_digit :: "nat \<Rightarrow> nat \<Rightarrow> nat option" where
  "radix_digit base c =
    (let v = (if is_digit c then Some (digit_val c)
              else if c \<in> set (ustr ''abcdef'') then Some (c - 87)
              else if c \<in> set (ustr ''ABCDEF'') then Some (c - 55)
              else None)
     in case v of None \<Rightarrow> None | Some d \<Rightarrow> if d < base then Some d else None)"

definition radix_literal :: "nat \<Rightarrow> jsstring \<Rightarrow> jsnum" where
  "radix_literal base ds =
    (if ds \<noteq> [] \<and> list_all (\<lambda>c. radix_digit base c \<noteq> None) ds
     then Fin (real (foldl (\<lambda>n c. base * n + (case radix_digit base c of Some d \<Rightarrow> d | None \<Rightarrow> 0)) 0 ds))
     else NaN)"

definition string_to_number :: "jsstring \<Rightarrow> jsnum" where
  "string_to_number s =
    (let t = trim s in
     if t = [] then Fin 0
     else if prefix (ustr ''0x'') t \<or> prefix (ustr ''0X'') t then radix_literal 16 (drop 2 t)
     else if prefix (ustr ''0o'') t \<or> prefix (ustr ''0O'') t then radix_literal 8 (drop 2 t)
     else if prefix (ustr ''0b'') t \<or> prefix (ustr ''0B'') t then radix_literal 2 (drop 2 t)
     else
       let u = (if hd t = code_unit CHR ''-'' \<or> hd t = code_unit CHR ''+'' then tl t else t)
       in if unsigned_decimal_rest u = [] \<and> \<not> js_isNaN (unsigned_decimal u)
          then (if hd t = code_unit CHR ''-'' then js_neg (unsigned_decimal u)
                else unsigned_decimal u)
          else NaN)"

fun cell_to_number :: "cell \<Rightarrow> jsnum" where
  "cell_to_number (CNum n) = n"
| "cell_to_number (CStr s) = string_to_number s"
| "cell_to_number (CBool t) = (if t then Fin 1 else Fin 0)"
| "cell_to_number CNull = Fin 0"

text \<open>
  \<^verbatim>\<open>toLowerCase\<close>, on the letters A to Z. (The method maps further letters of Unicode,
  none of them to a letter of \<^verbatim>\<open>yes\<close>, the only text its result is compared with.)
\<close>

definition to_lower :: "jsstring \<Rightarrow> jsstring" where
  "to_lower s = map (\<lambda>c. if c \<in> set (ustr ''ABCDEFGHIJKLMNOPQRSTUVWXYZ'') then c + 32 else c) s"

text \<open>
  \<^verbatim>\<open>preprocessData\<close> maps over the records three times. The first pass copies each record
  and deletes the dropped columns; the second derives the age; the third turns the yes/no
  strings into \<open>1\<close> and \<open>0\<close>.
\<close>

definition drop_columns :: "row \<Rightarrow> row" where
  "drop_columns r = foldl (\<lambda>newRow col. newRow(col := None)) r [''ZIP Code'', ''Year'']"

definition derive_age :: "row \<Rightarrow> row" where
  "derive_age r =
    (case r ''Year Built'' of
       None \<Rightarrow> r
     | Some built \<Rightarrow>
         if r ''Age of Home'' = None then
           (r(''Age of Home'' \<mapsto> CNum (js_sub (Fin 2025) (cell_to_number built))))
             (''Year Built'' := None)
         else r)"

definition yes_no :: "row \<Rightarrow> row" where
  "yes_no r =
    foldl (\<lambda>r col. case r col of
                     Some (CStr s) \<Rightarrow>
                       r(col \<mapsto> CNum (if to_lower (trim s) = ustr ''yes'' then Fin 1 else Fin 0))
                   | _ \<Rightarrow> r)
      r [''Has Swimming Pool'', ''Security System Installed'', ''Has Garage'', ''Has Basement'']"

definition preprocessData :: "row list \<Rightarrow> row list" where
  "preprocessData df = map yes_no (map derive_age (map drop_columns df))"

section \<open>Training: the standard scaler\<close>

record standard_scaler =
  mean :: "jsnum list"
  scale :: "jsnum list"

text \<open>
  \<^verbatim>\<open>standardScaler(X_train)\<close>. Reading \<^verbatim>\<open>X_train[0].length\<close> of an empty matrix throws
  (\<open>None\<close>). The two passes over the columns are maps over \<open>0 ..< numFeatures\<close>, the
  inner passes over the rows are left folds.
\<close>

definition standardScaler :: "jsnum list list \<Rightarrow> standard_scaler option" where
  "standardScaler X_train =
    (case X_train of
       [] \<Rightarrow> None
     | row0 # _ \<Rightarrow>
         let numFeatures = length row0;
             n = Fin (real (length X_train));
             mean = map (\<lambda>j. d_div (foldl (\<lambda>sum r. d_add sum (num_at r j)) (Fin 0) X_train) n)
                      [0..<numFeatures];
             std = map (\<lambda>j. d_sqrt (d_div
                        (foldl (\<lambda>sumSq r. d_add sumSq (d_pow2 (d_sub (num_at r j) (num_at mean j))))
                           (Fin 0) X_train) n))
                      [0..<numFeatures]
         in Some \<lparr>mean = mean, scale = std\<rparr>)"

text \<open>The closure \<^verbatim>\<open>transform\<close> of the returned object.\<close>

definition transform :: "standard_scaler \<Rightarrow> jsnum list list \<Rightarrow> jsnum list list" where
  "transform sc X =
    map (\<lambda>r. map (\<lambda>(val, j). d_div (d_sub val (num_at (mean sc) j)) (num_at (scale sc) j))
               (zip r [0..<length r])) X"

section \<open>Training: the train/test split\<close>

text \<open>
  The generator \<^verbatim>\<open>rng = (rng * 9301 + 49297) % 233280\<close> and the number \<^verbatim>\<open>rng / 233280\<close>
  that \<^verbatim>\<open>seededRandom\<close> returns.
\<close>

definition next_rng :: "jsnum \<Rightarrow> jsnum" where
  "next_rng rng = js_rem (d_add (d_mul rng (Fin 9301)) (Fin 49297)) (Fin 233280)"






record ('r, 't) split =
  X_train :: "'r option list"
  X_test :: "'r option list"
  y_train :: "'t option list"
  y_test :: "'t option list"






section \<open>Values of a request body and \<^verbatim>\<open>parseFloat\<close>\<close>

text \<open>
  The body of a request is an object whose values are what \<^verbatim>\<open>express.json()\<close> and
  \<^verbatim>\<open>express.urlencoded()\<close> can produce: \<^verbatim>\<open>null\<close>, booleans, numbers, strings, arrays and
  nested objects with their own members. Reading a key gives \<open>Some\<close> value, or \<open>None\<close> for
  \<^verbatim>\<open>undefined\<close> when the key is absent: \<^verbatim>\<open>k in data\<close> is \<open>data k \<noteq> None\<close>.
\<close>

datatype jsval = JNull | JBool bool | JNum jsnum | JStr jsstring
  | JObj "(string \<times> jsval) list" | JArr "jsval list"

type_synonym body = "string \<rightharpoonup> jsval"

fun truthy :: "jsval \<Rightarrow> bool" where
  "truthy JNull = False"
| "truthy (JBool t) = t"
| "truthy (JNum n) = (n \<noteq> Fin 0 \<and> n \<noteq> NaN)"
| "truthy (JStr s) = (s \<noteq> [])"
| "truthy (JObj _) = True"
| "truthy (JArr _) = True"

text \<open>\<^verbatim>\<open>x || y\<close> on values that may be \<^verbatim>\<open>undefined\<close>.\<close>

definition js_or :: "jsval option \<Rightarrow> jsval option \<Rightarrow> jsval option" where
  "js_or x y = (case x of None \<Rightarrow> y | Some v \<Rightarrow> if truthy v then x else y)"

text \<open>
  On a value that is no string \<^verbatim>\<open>parseFloat\<close> first converts it to a string, and that
  conversion can throw. An object is converted by its \<^verbatim>\<open>toString\<close> method: the inherited
  one gives \<^verbatim>\<open>[object Object]\<close>; a member of its own named \<^verbatim>\<open>toString\<close> hides the inherited
  method and, being data, cannot be called, and since \<^verbatim>\<open>valueOf\<close> (inherited, or a member
  that is data as well) gives no primitive value either, the conversion throws a
  \<^verbatim>\<open>TypeError\<close>. An array is converted by joining the strings of all its elements with
  commas (\<^verbatim>\<open>null\<close> gives the empty string), so it throws when one of its elements does.
\<close>

fun toString_throws :: "jsval \<Rightarrow> bool" where
  "toString_throws (JObj members) = (''toString'' \<in> fst ` set members)"
| "toString_throws (JArr xs) = (\<exists>x\<in>set xs. toString_throws x)"
| "toString_throws _ = False"

text \<open>The message of that \<^verbatim>\<open>TypeError\<close>, as Node.js words it.\<close>

definition type_error_message :: string where
  "type_error_message = ''Cannot convert object to primitive value''"

text \<open>
  The number that \<^verbatim>\<open>parseFloat\<close> returns when the conversion does not throw. A number
  prints to a string that reads back as itself; \<^verbatim>\<open>null\<close>, \<^verbatim>\<open>undefined\<close>, booleans and
  objects print to words that are no number; an array prints its elements separated by
  commas, and no literal goes across a comma, so the prefix that is read is the one of
  its first element.
\<close>

fun parseFloat_value :: "jsval \<Rightarrow> jsnum" where
  "parseFloat_value (JNum n) = n"
| "parseFloat_value (JStr s) = parseFloat_string s"
| "parseFloat_value (JArr (x # xs)) = parseFloat_value x"
| "parseFloat_value _ = NaN"

definition parseFloat :: "jsval option \<Rightarrow> jsnum" where
  "parseFloat x = (case x of None \<Rightarrow> NaN | Some v \<Rightarrow> parseFloat_value v)"

definition parseFloat_throws :: "jsval option \<Rightarrow> bool" where
  "parseFloat_throws x = (case x of None \<Rightarrow> False | Some v \<Rightarrow> toString_throws v)"

section \<open>The prediction service (app.js)\<close>

text \<open>
  The artifacts. The model is the function from the scaled feature row to the first
  entry of \<^verbatim>\<open>_model.predict\<close>'s result; the scaler and the calibration are the objects
  that \<^verbatim>\<open>JSON.parse\<close> returns for files of the documented shapes
  \<^verbatim>\<open>{mean: [...], scale: [...]}\<close> and an object of numbers. For each file, \<open>None\<close> stands
  for a read or a parse that throws.
\<close>

type_synonym model = "jsnum list \<Rightarrow> jsnum"

record scaler_json =
  mean :: "json_num list"
  scale :: "json_num list"

type_synonym calib_json = "string \<rightharpoonup> json_num"

record files =
  model_file :: "model option"
  scaler_file :: "scaler_json option"
  calib_file :: "calib_json option"

text \<open>
  The module variables \<^verbatim>\<open>_model\<close>, \<^verbatim>\<open>_scaler\<close> and \<^verbatim>\<open>_calib\<close> (\<open>None\<close> is \<^verbatim>\<open>null\<close>), and a
  log of what the process did: every attempt to read an artifact, with its outcome, and
  every call of the model.
\<close>

datatype artifact = Model | Scaler | Calib

datatype event = Loaded artifact | ReadFailed artifact | Predicted "jsnum list"

record server =
  model :: "model option"
  scaler :: "scaler_json option"
  calib :: "calib_json option"
  log :: "event list"

definition initial :: server where
  "initial = \<lparr>model = None, scaler = None, calib = None, log = []\<rparr>"

text \<open>The loaders. The first component tells whether the call returns (\<open>True\<close>) or throws.\<close>

definition loadModel :: "files \<Rightarrow> server \<Rightarrow> bool \<times> server" where
  "loadModel fs s =
    (if model s = None then
       (case model_file fs of
          None \<Rightarrow> (False, s\<lparr>log := log s @ [ReadFailed Model]\<rparr>)
        | Some m \<Rightarrow> (True, s\<lparr>model := Some m, log := log s @ [Loaded Model]\<rparr>))
     else (True, s))"

definition loadScaler :: "files \<Rightarrow> server \<Rightarrow> bool \<times> server" where
  "loadScaler fs s =
    (if scaler s = None then
       (case scaler_file fs of
          None \<Rightarrow> (False, s\<lparr>log := log s @ [ReadFailed Scaler]\<rparr>)
        | Some d \<Rightarrow> (True, s\<lparr>scaler := Some d, log := log s @ [Loaded Scaler]\<rparr>))
     else (True, s))"

definition loadCalibration :: "files \<Rightarrow> server \<Rightarrow> server" where
  "loadCalibration fs s =
    (if calib s = None then
       (case calib_file fs of
          None \<Rightarrow> s\<lparr>calib := None, log := log s @ [ReadFailed Calib]\<rparr>
        | Some c \<Rightarrow> s\<lparr>calib := Some c, log := log s @ [Loaded Calib]\<rparr>)
     else s)"

definition json_at :: "json_num list \<Rightarrow> nat \<Rightarrow> jsnum" where
  "json_at xs i = (if i < length xs then to_number (xs ! i) else NaN)"

definition scaleFeatures :: "jsnum list \<Rightarrow> scaler_json \<Rightarrow> jsnum list" where
  "scaleFeatures X sc =
    map (\<lambda>(val, i). js_div (js_sub val (json_at (mean sc) i)) (json_at (scale sc) i))
      (zip X [0..<length X])"

fun join :: "string \<Rightarrow> string list \<Rightarrow> string" where
  "join sep [] = []"
| "join sep [x] = x"
| "join sep (x # y # ys) = x @ sep @ join sep (y # ys)"

datatype response = Premium jsnum | Error nat string

text \<open>Lines 100--107: the coverage value and the list of missing fields.\<close>

definition covA :: "body \<Rightarrow> jsval option" where
  "covA data = js_or (data ''Coverage A'') (data ''Property Value'')"

definition missing_fields :: "body \<Rightarrow> string list" where
  "missing_fields data =
    (let requiredBase = [''Bedrooms'', ''Square Footage'', ''Age of Home''];
         missing = filter (\<lambda>k. data k = None) requiredBase
     in if covA data = None then missing @ [''Coverage A (or Property Value)'']
        else missing)"

text \<open>
  Lines 115--130, the inner \<^verbatim>\<open>try\<close>. It ends in its \<^verbatim>\<open>catch\<close> when one of the four calls
  of \<^verbatim>\<open>parseFloat\<close> throws, or when all return and one of the numbers is \<open>NaN\<close>;
  \<open>parse_features\<close> is then \<open>None\<close> and \<open>parse_message\<close> is the message of the exception
  caught. Otherwise \<open>parse_features\<close> gives the four numbers.
\<close>

definition parse_throws :: "body \<Rightarrow> bool" where
  "parse_throws data \<longleftrightarrow>
     parseFloat_throws (data ''Bedrooms'') \<or> parseFloat_throws (data ''Square Footage'') \<or>
     parseFloat_throws (covA data) \<or> parseFloat_throws (data ''Age of Home'')"

definition parse_features :: "body \<Rightarrow> jsnum list option" where
  "parse_features data =
    (let bedrooms = parseFloat (data ''Bedrooms'');
         sqft = parseFloat (data ''Square Footage'');
         coverageA = parseFloat (covA data);
         age = parseFloat (data ''Age of Home'')
     in if parse_throws data then None
        else if js_isNaN bedrooms \<or> js_isNaN sqft \<or> js_isNaN coverageA \<or> js_isNaN age then None
        else Some [bedrooms, sqft, coverageA, age])"

definition parse_message :: "body \<Rightarrow> string" where
  "parse_message data =
    (if parse_throws data then type_error_message else ''Invalid number format'')"

text \<open>Lines 148--153: the optional calibration with its floor at zero.\<close>

definition calibrate :: "calib_json option \<Rightarrow> jsnum \<Rightarrow> jsnum" where
  "calibrate cal pred =
    (case cal of
       None \<Rightarrow> pred
     | Some c \<Rightarrow>
         (case (c ''a'', c ''b'') of
            (Some ca, Some cb) \<Rightarrow>
              js_max (Fin 0) (js_add (js_mul (to_number ca) pred) (to_number cb))
          | _ \<Rightarrow> pred))"

definition round2 :: "jsnum \<Rightarrow> jsnum" where
  "round2 x = js_div (js_round (js_mul x (Fin 100))) (Fin 100)"

definition internal_error :: response where
  "internal_error = Error 500 ''Internal server error during prediction''"

text \<open>
  The handler of \<^verbatim>\<open>POST /predict\<close>. A loader that throws, and a use of a variable that is
  still \<^verbatim>\<open>null\<close>, end in the outer \<^verbatim>\<open>catch\<close>.
\<close>

definition predict_handler :: "files \<Rightarrow> server \<Rightarrow> body \<Rightarrow> response \<times> server" where
  "predict_handler fs s0 data =
    (case loadModel fs s0 of
       (False, s1) \<Rightarrow> (internal_error, s1)
     | (True, s1) \<Rightarrow>
    (case loadScaler fs s1 of
       (False, s2) \<Rightarrow> (internal_error, s2)
     | (True, s2) \<Rightarrow>
    (let s3 = loadCalibration fs s2;
         missing = missing_fields data
     in if length missing > 0 then
          (Error 400 (''Missing fields: '' @ join '', '' missing), s3)
        else
          (case parse_features data of
             None \<Rightarrow> (Error 400 (''Invalid input types: '' @ parse_message data), s3)
           | Some X \<Rightarrow>
               (case (scaler s3, model s3) of
                  (Some sc, Some m) \<Rightarrow>
                    (let Xs = scaleFeatures X sc;
                         pred = m Xs;
                         predCal = calibrate (calib s3) pred
                     in (Premium (round2 predCal), s3\<lparr>log := log s3 @ [Predicted Xs]\<rparr>))
                | _ \<Rightarrow> (internal_error, s3))))))"

text \<open>Requests handled one after another, each against the files as they are then.\<close>

fun serve :: "server \<Rightarrow> (files \<times> body) list \<Rightarrow> response list \<times> server" where
  "serve s [] = ([], s)"
| "serve s ((fs, data) # rest) =
    (case predict_handler fs s data of
       (r, s1) \<Rightarrow> (case serve s1 rest of (rs, s2) \<Rightarrow> (r # rs, s2)))"

section \<open>The prediction service: requests that overlap\<close>

text \<open>
  The handler is an \<^verbatim>\<open>async\<close> function: at every \<^verbatim>\<open>await\<close> it gives up control, and other
  requests run before it goes on. A request in progress is at one of these places: waiting
  for the model to load (line 47), back from \<^verbatim>\<open>loadModel\<close>, waiting for the scaler file
  (line 54), back from \<^verbatim>\<open>loadScaler\<close>, waiting for the calibration file (line 63), back from
  \<^verbatim>\<open>loadCalibration\<close>, waiting for the data of the prediction (line 141, holding the
  prediction), or finished with its response.
\<close>

datatype stage =
    AwaitModel | AfterModel | AwaitScaler | AfterScaler | AwaitCalib | AfterCalib
  | AwaitData jsnum | Responded response

record task =
  body :: body
  stage :: stage

record process =
  server :: server
  tasks :: "task list"

definition start :: process where
  "start = \<lparr>server = initial, tasks = []\<rparr>"

text \<open>
  When a request arrives the handler runs up to its first \<^verbatim>\<open>await\<close>: \<^verbatim>\<open>loadModel\<close> tests
  \<^verbatim>\<open>_model\<close> and either starts the load or returns at once.
\<close>

definition arrive_stage :: "server \<Rightarrow> stage" where
  "arrive_stage s = (if model s = None then AwaitModel else AfterModel)"

text \<open>
  One request going on from an \<^verbatim>\<open>await\<close> to its next one. A read ends with what the file
  is at that moment. The assignments to the module variables are the ones of the loaders;
  the test of \<^verbatim>\<open>_scaler\<close> or \<^verbatim>\<open>_calib\<close> is made when the request reaches that loader, and
  the calibration applied is the value of \<^verbatim>\<open>_calib\<close> when the prediction's data arrive.
\<close>

fun resume :: "files \<Rightarrow> body \<Rightarrow> server \<Rightarrow> stage \<Rightarrow> server \<times> stage" where
  "resume fs data s AwaitModel =
    (case model_file fs of
       None \<Rightarrow> (s\<lparr>log := log s @ [ReadFailed Model]\<rparr>, Responded internal_error)
     | Some m \<Rightarrow> (s\<lparr>model := Some m, log := log s @ [Loaded Model]\<rparr>, AfterModel))"
| "resume fs data s AfterModel = (s, if scaler s = None then AwaitScaler else AfterScaler)"
| "resume fs data s AwaitScaler =
    (case scaler_file fs of
       None \<Rightarrow> (s\<lparr>log := log s @ [ReadFailed Scaler]\<rparr>, Responded internal_error)
     | Some d \<Rightarrow> (s\<lparr>scaler := Some d, log := log s @ [Loaded Scaler]\<rparr>, AfterScaler))"
| "resume fs data s AfterScaler = (s, if calib s = None then AwaitCalib else AfterCalib)"
| "resume fs data s AwaitCalib =
    (case calib_file fs of
       None \<Rightarrow> (s\<lparr>calib := None, log := log s @ [ReadFailed Calib]\<rparr>, AfterCalib)
     | Some c \<Rightarrow> (s\<lparr>calib := Some c, log := log s @ [Loaded Calib]\<rparr>, AfterCalib))"
| "resume fs data s AfterCalib =
    (let missing = missing_fields data
     in if length missing > 0 then
          (s, Responded (Error 400 (''Missing fields: '' @ join '', '' missing)))
        else
          (case parse_features data of
             None \<Rightarrow> (s, Responded (Error 400 (''Invalid input types: '' @ parse_message data)))
           | Some X \<Rightarrow>
               (case (scaler s, model s) of
                  (Some sc, Some m) \<Rightarrow>
                    (let Xs = scaleFeatures X sc
                     in (s\<lparr>log := log s @ [Predicted Xs]\<rparr>, AwaitData (m Xs)))
                | _ \<Rightarrow> (s, Responded internal_error))))"
| "resume fs data s (AwaitData pred) = (s, Responded (Premium (round2 (calibrate (calib s) pred))))"
| "resume fs data s (Responded r) = (s, Responded r)"

text \<open>
  What happens in the process, one event after the other: a request arrives, or the
  request with a given number goes on. A schedule lists the events, each with the files as
  they are then.
\<close>

datatype action = Arrive body | Resume nat

definition exec :: "files \<Rightarrow> action \<Rightarrow> process \<Rightarrow> process" where
  "exec fs act c =
    (case act of
       Arrive data \<Rightarrow> c\<lparr>tasks := tasks c @ [\<lparr>body = data, stage = arrive_stage (server c)\<rparr>]\<rparr>
     | Resume i \<Rightarrow>
         if i < length (tasks c) then
           (case resume fs (body (tasks c ! i)) (server c) (stage (tasks c ! i)) of
              (s', st') \<Rightarrow> \<lparr>server = s', tasks = (tasks c)[i := (tasks c ! i)\<lparr>stage := st'\<rparr>]\<rparr>)
         else c)"

definition run :: "(files \<times> action) list \<Rightarrow> process \<Rightarrow> process" where
  "run sched c = foldl (\<lambda>c (fs, act). exec fs act c) c sched"

text \<open>
  The schedule in which the requests do not overlap: each one arrives and goes on to
  its response (at most seven times) before the next one arrives.
\<close>

fun sequential :: "nat \<Rightarrow> (files \<times> body) list \<Rightarrow> (files \<times> action) list" where
  "sequential k [] = []"
| "sequential k ((fs, data) # rest) =
     (fs, Arrive data) # replicate 7 (fs, Resume k) @ sequential (Suc k) rest"

section \<open>Notions used to state the properties of the training\<close>



section \<open>Notions used to state the properties of the service\<close>

text \<open>What a module variable holds once its loader has run: the cached value if there
  is one, else what the file gives.\<close>

definition available :: "'v option \<Rightarrow> 'v option \<Rightarrow> 'v option" where
  "available cached file = (case cached of None \<Rightarrow> file | Some v \<Rightarrow> Some v)"

text \<open>The feature rows the model was called on, in order.\<close>

definition predictions :: "server \<Rightarrow> jsnum list list" where
  "predictions s = concat (map (\<lambda>e. case e of Predicted xs \<Rightarrow> [xs] | _ \<Rightarrow> []) (log s))"

text \<open>Whether an artifact is cached, and the part of the log that is about its file.\<close>

fun cached :: "artifact \<Rightarrow> server \<Rightarrow> bool" where
  "cached Model s = (model s \<noteq> None)"
| "cached Scaler s = (scaler s \<noteq> None)"
| "cached Calib s = (calib s \<noteq> None)"

definition reads :: "artifact \<Rightarrow> server \<Rightarrow> event list" where
  "reads x s = filter (\<lambda>e. e = Loaded x \<or> e = ReadFailed x) (log s)"

text \<open>
  The missing fields in the words of the specification, by presence of keys: each of the
  three base keys that is absent, and the coverage when both \<^verbatim>\<open>Coverage A\<close> and
  \<^verbatim>\<open>Property Value\<close> are absent.
\<close>

definition absent_keys :: "body \<Rightarrow> string list" where
  "absent_keys data =
    filter (\<lambda>k. data k = None) [''Bedrooms'', ''Square Footage'', ''Age of Home''] @
    (if data ''Coverage A'' = None \<and> data ''Property Value'' = None
     then [''Coverage A (or Property Value)''] else [])"

text \<open>
  Sample artifacts and the request of the specification's first end-to-end scenario:
  a model that adds up the scaled features, and a scaler that sends the scenario's row to
  \<open>[1, 1, 1, 1]\<close>.
\<close>

definition sample_model :: model where
  "sample_model Xs = foldl js_add (Fin 0) Xs"

definition sample_scaler :: scaler_json where
  "sample_scaler = \<lparr>mean = [JsonNum 2, JsonNum 1000, JsonNum 200000, JsonNum 10],
                     scale = [JsonNum 1, JsonNum 1000, JsonNum 50000, JsonNum 5]\<rparr>"

definition sample_files :: "calib_json option \<Rightarrow> files" where
  "sample_files cal =
    \<lparr>model_file = Some sample_model, scaler_file = Some sample_scaler, calib_file = cal\<rparr>"

definition scenario_body :: body where
  "scenario_body = map_of [(''Bedrooms'', JNum (Fin 3)), (''Square Footage'', JNum (Fin 2000)),
     (''Coverage A'', JNum (Fin 250000)), (''Age of Home'', JNum (Fin 15))]"

text \<open>
  What one request may do to the reads of an artifact: nothing; one failed read, the
  artifact staying uncached; or one successful load of an artifact that was not cached.
\<close>

definition read_step :: "artifact \<Rightarrow> server \<Rightarrow> server \<Rightarrow> bool" where
  "read_step x s s' \<longleftrightarrow>
     (cached x s' = cached x s \<and> reads x s' = reads x s) \<or>
     (\<not> cached x s \<and> \<not> cached x s' \<and> reads x s' = reads x s @ [ReadFailed x]) \<or>
     (\<not> cached x s \<and> cached x s' \<and> reads x s' = reads x s @ [Loaded x])"

text \<open>
  The reads of an artifact so far: some failed reads, then one successful load exactly when
  the artifact is cached, and nothing after it.
\<close>

definition load_once :: "artifact \<Rightarrow> server \<Rightarrow> bool" where
  "load_once x s \<longleftrightarrow>
     (\<exists>k. reads x s = replicate k (ReadFailed x) @ (if cached x s then [Loaded x] else []))"

text \<open>
  For requests that overlap: whether a request is waiting for the read of an artifact,
  and whether it is past the loader of the artifact; whether some request of the process
  is waiting for that read; an artifact is settled when it is cached and no read of it
  is in progress; and the number of requests that are past its loader.
\<close>

fun awaiting :: "artifact \<Rightarrow> stage \<Rightarrow> bool" where
  "awaiting Model st = (st = AwaitModel)"
| "awaiting Scaler st = (st = AwaitScaler)"
| "awaiting Calib st = (st = AwaitCalib)"

fun finished_loader :: "artifact \<Rightarrow> stage \<Rightarrow> bool" where
  "finished_loader Model st = (st \<noteq> AwaitModel)"
| "finished_loader Scaler st = (st \<notin> {AwaitModel, AfterModel, AwaitScaler})"
| "finished_loader Calib st = (st \<notin> {AwaitModel, AfterModel, AwaitScaler, AfterScaler, AwaitCalib})"

definition in_flight :: "artifact \<Rightarrow> process \<Rightarrow> bool" where
  "in_flight x c = list_ex (\<lambda>t. awaiting x (stage t)) (tasks c)"

definition settled :: "artifact \<Rightarrow> process \<Rightarrow> bool" where
  "settled x c \<longleftrightarrow> cached x (server c) \<and> \<not> in_flight x c"

definition finished :: "artifact \<Rightarrow> process \<Rightarrow> nat" where
  "finished x c = length (filter (\<lambda>t. finished_loader x (stage t)) (tasks c))"

text \<open>
  Two requests of the scenario that arrive one right after the other, with no
  calibration file, and then go on in turns.
\<close>

definition overlap_schedule :: "(files \<times> action) list" where
  "overlap_schedule = map (Pair (sample_files None))
     [Arrive scenario_body, Arrive scenario_body, Resume 0, Resume 1, Resume 0, Resume 1,
      Resume 0, Resume 1, Resume 0, Resume 1, Resume 0, Resume 1, Resume 0, Resume 1,
      Resume 0, Resume 1]"

text \<open>A calibration that turns the scenario's prediction negative, and variants of the
  scenario's request.\<close>

definition sample_calib :: calib_json where
  "sample_calib = map_of [(''a'', JsonNum (- 1)), (''b'', JsonNum 1)]"

definition half_calib :: calib_json where
  "half_calib = map_of [(''a'', JsonNum (1 / 2)), (''b'', JsonNum (1 / 8))]"

definition fraction_body :: body where
  "fraction_body = map_of [(''Bedrooms'', JNum (Fin 3)), (''Square Footage'', JNum (Fin 2126)),
     (''Coverage A'', JNum (Fin 250000)), (''Age of Home'', JNum (Fin 15))]"

definition negative_body :: body where
  "negative_body = map_of [(''Bedrooms'', JNum (Fin (- 7 / 2))), (''Square Footage'', JNum (Fin 2000)),
     (''Coverage A'', JNum (Fin 250000)), (''Age of Home'', JNum (Fin 15))]"

definition no_age_body :: body where
  "no_age_body = map_of [(''Bedrooms'', JNum (Fin 3)), (''Square Footage'', JNum (Fin 2000)),
     (''Coverage A'', JNum (Fin 250000))]"

definition no_bedrooms_body :: body where
  "no_bedrooms_body = map_of [(''Square Footage'', JNum (Fin 2000)),
     (''Coverage A'', JNum (Fin 0)), (''Age of Home'', JNum (Fin 15))]"



definition word_bedrooms_body :: body where
  "word_bedrooms_body = map_of [(''Bedrooms'', JStr (ustr ''three'')),
     (''Square Footage'', JNum (Fin 2000)), (''Coverage A'', JNum (Fin 250000)),
     (''Age of Home'', JNum (Fin 15))]"

definition object_bedrooms_body :: body where
  "object_bedrooms_body = map_of [(''Bedrooms'', JObj [(''toString'', JNum (Fin 1))]),
     (''Square Footage'', JNum (Fin 2000)), (''Coverage A'', JNum (Fin 250000)),
     (''Age of Home'', JNum (Fin 15))]"

definition prefix_bedrooms_body :: body where
  "prefix_bedrooms_body = map_of [(''Bedrooms'', JStr (ustr ''3abc'')),
     (''Square Footage'', JNum (Fin 2000)), (''Coverage A'', JNum (Fin 250000)),
     (''Age of Home'', JNum (Fin 15))]"

section \<open>Properties of the number model\<close>

lemma js_NaN_right [simp]:
  "js_add x NaN = NaN" "js_mul x NaN = NaN" "js_div x NaN = NaN" "js_sub x NaN = NaN"
  "js_max x NaN = NaN"
  by (cases x; simp add: js_sub_def)+

lemma js_sub_NaN_left [simp]: "js_sub NaN x = NaN"
  by (simp add: js_sub_def)

lemma js_sub_Fin [simp]: "js_sub (Fin x) (Fin y) = Fin (x - y)"
  by (simp add: js_sub_def)

lemma js_NaN_left [simp]:
  "js_add NaN x = NaN" "js_mul NaN x = NaN" "js_div NaN x = NaN"
  by (cases x; simp)+

lemma js_sub_same_inf [simp]: "js_sub PInf PInf = NaN" "js_sub NInf NInf = NaN"
  by (simp_all add: js_sub_def)

section \<open>Properties of the rounding\<close>

lemma rhe_int [simp]: "round_half_even (of_int n) = n"
  by (simp add: round_half_even_def)

lemma rhe_range: "\<lfloor>y\<rfloor> \<le> round_half_even y" "round_half_even y \<le> \<lfloor>y\<rfloor> + 1"
  by (simp_all add: round_half_even_def Let_def)

lemma rhe_mono: "u \<le> v \<Longrightarrow> round_half_even u \<le> round_half_even v"
proof -
  assume uv: "u \<le> v"
  then have f: "\<lfloor>u\<rfloor> \<le> \<lfloor>v\<rfloor>" by (rule floor_mono)
  show ?thesis
  proof (cases "\<lfloor>u\<rfloor> = \<lfloor>v\<rfloor>")
    case True
    with uv show ?thesis
      by (auto simp: round_half_even_def Let_def)
  next
    case False
    with f have "\<lfloor>u\<rfloor> + 1 \<le> \<lfloor>v\<rfloor>" by simp
    with rhe_range(2) [of u] rhe_range(1) [of v] show ?thesis by linarith
  qed
qed



lemma two_powi_pos [simp]: "0 < (2::real) powi e"
  by (simp add: zero_less_power_int)

lemma two_powi_powr: "(2::real) powr real_of_int e = 2 powi e"
  by (rule powr_real_of_int') simp_all

lemma two_powi_mono: "m \<le> n \<Longrightarrow> (2::real) powi m \<le> 2 powi n"
  unfolding two_powi_powr [symmetric] by (rule powr_mono) simp_all

lemma two_powi_strict_mono: "m < n \<Longrightarrow> (2::real) powi m < 2 powi n"
  unfolding two_powi_powr [symmetric] by (rule powr_less_mono) simp_all

lemma two_powi_add: "(2::real) powi (m + n) = 2 powi m * 2 powi n"
  by (rule power_int_add) simp

lemma two_powi_nat: "0 \<le> n \<Longrightarrow> (2::real) powi n = of_int (2 ^ nat n)"
  by (simp add: power_int_def)

lemma floor_log2:
  assumes "x \<noteq> 0"
  shows "2 powi \<lfloor>Transcendental.log 2 \<bar>x\<bar>\<rfloor> \<le> \<bar>x\<bar>" and "\<bar>x\<bar> < 2 powi (\<lfloor>Transcendental.log 2 \<bar>x\<bar>\<rfloor> + 1)"
proof -
  have "0 < \<bar>x\<bar>" using assms by simp
  from floor_log_eq_powr_iff [OF this, of 2 "\<lfloor>Transcendental.log 2 \<bar>x\<bar>\<rfloor>"]
  have "2 powr real_of_int \<lfloor>Transcendental.log 2 \<bar>x\<bar>\<rfloor> \<le> \<bar>x\<bar> \<and> \<bar>x\<bar> < 2 powr real_of_int (\<lfloor>Transcendental.log 2 \<bar>x\<bar>\<rfloor> + 1)"
    by simp
  then show "2 powi \<lfloor>Transcendental.log 2 \<bar>x\<bar>\<rfloor> \<le> \<bar>x\<bar>" and "\<bar>x\<bar> < 2 powi (\<lfloor>Transcendental.log 2 \<bar>x\<bar>\<rfloor> + 1)"
    by (simp_all only: two_powi_powr)
qed

lemma binade_upper: "x \<noteq> 0 \<Longrightarrow> \<bar>x\<bar> < 2 powi (binade x + 1)"
proof -
  assume x: "x \<noteq> 0"
  have "\<lfloor>Transcendental.log 2 \<bar>x\<bar>\<rfloor> + 1 \<le> binade x + 1" by (simp add: binade_def)
  then have "(2::real) powi (\<lfloor>Transcendental.log 2 \<bar>x\<bar>\<rfloor> + 1) \<le> 2 powi (binade x + 1)" by (rule two_powi_mono)
  with floor_log2(2) [OF x] show ?thesis by linarith
qed

lemma binade_lower: "x \<noteq> 0 \<Longrightarrow> - 1022 < binade x \<Longrightarrow> 2 powi binade x \<le> \<bar>x\<bar>"
proof -
  assume x: "x \<noteq> 0" and b: "- 1022 < binade x"
  then have "binade x = \<lfloor>Transcendental.log 2 \<bar>x\<bar>\<rfloor>" by (simp add: binade_def max_def split: if_splits)
  with floor_log2(1) [OF x] show ?thesis by simp
qed



lemma binade_subnormal:
  assumes "x \<noteq> 0" and "\<bar>x\<bar> < 2 powi (- 1022)"
  shows "binade x = - 1022"
proof -
  have "\<lfloor>Transcendental.log 2 \<bar>x\<bar>\<rfloor> < - 1022"
  proof (rule ccontr)
    assume "\<not> \<lfloor>Transcendental.log 2 \<bar>x\<bar>\<rfloor> < - 1022"
    then have "(2::real) powi (- 1022) \<le> 2 powi \<lfloor>Transcendental.log 2 \<bar>x\<bar>\<rfloor>" by (intro two_powi_mono) simp
    with floor_log2(1) [OF assms(1)] assms(2) show False by linarith
  qed
  then show ?thesis by (simp add: binade_def)
qed


lemma ulp_pos [simp]: "0 < ulp x"
  by (simp add: ulp_def)

lemma ulp_nonneg [simp]: "0 \<le> ulp x"
  using ulp_pos [of x] by (rule less_imp_le)

lemma abs_ulp [simp]: "\<bar>ulp x\<bar> = ulp x"
  by (rule abs_of_nonneg) simp

lemma ulp_mult: "ulp x * 2 ^ 52 = 2 powi binade x" "ulp x * 2 ^ 53 = 2 powi (binade x + 1)"
proof -
  have "(2::real) powi binade x = 2 powi ((binade x - 52) + 52)" by simp
  also have "\<dots> = 2 powi (binade x - 52) * 2 powi 52" by (rule two_powi_add)
  finally show "ulp x * 2 ^ 52 = 2 powi binade x" by (simp add: ulp_def)
  have "binade x + 1 = (binade x - 52) + 53" by simp
  then have "(2::real) powi (binade x + 1) = 2 powi ((binade x - 52) + 53)" by (rule arg_cong)
  also have "\<dots> = 2 powi (binade x - 52) * 2 powi 53" by (rule two_powi_add)
  finally show "ulp x * 2 ^ 53 = 2 powi (binade x + 1)" by (simp add: ulp_def)
qed


lemma nearest_0 [simp]: "nearest 0 = 0"
  by (simp add: nearest_def)


lemma nearest_exact:
  assumes "x = of_int m * 2 powi k" and "\<bar>m\<bar> < 2 ^ 53" and "- 1074 \<le> k"
  shows "nearest x = x"
proof (cases "x = 0")
  case True
  then show ?thesis by simp
next
  case False
  let ?e = "binade x"
  have "\<bar>x\<bar> = of_int \<bar>m\<bar> * 2 powi k" by (simp add: assms(1) abs_mult)
  also have "\<dots> < 2 ^ 53 * 2 powi k"
  proof -
    have "real_of_int \<bar>m\<bar> < real_of_int (2 ^ 53)" using assms(2) by (simp only: of_int_less_iff)
    then show ?thesis by simp
  qed
  also have "\<dots> = 2 powi (k + 53)" by (simp add: two_powi_add)
  finally have ub: "\<bar>x\<bar> < 2 powi (k + 53)" .
  have e: "?e \<le> k + 52"
  proof (rule ccontr)
    assume "\<not> ?e \<le> k + 52"
    then have ge: "k + 53 \<le> ?e" by simp
    with assms(3) have "- 1022 < ?e" by simp
    from binade_lower [OF False this] two_powi_mono [OF ge] ub show False by linarith
  qed
  define d where "d = k - (?e - 52)"
  have d: "0 \<le> d" using e by (simp add: d_def)
  have k: "k = d + (?e - 52)" by (simp add: d_def)
  have "(2::real) powi k = 2 powi d * 2 powi (?e - 52)"
    by (subst k) (rule two_powi_add)
  then have xu: "x = of_int (m * 2 ^ nat d) * ulp x"
    using d by (simp add: assms(1) ulp_def two_powi_nat)
  then have "x / ulp x = of_int (m * 2 ^ nat d)"
    by (metis nonzero_mult_div_cancel_right ulp_pos less_irrefl)
  then have "round_half_even (x / ulp x) = m * 2 ^ nat d" by (simp only: rhe_int)
  then have "nearest x = of_int (m * 2 ^ nat d) * ulp x" using False by (simp add: nearest_def)
  with xu show ?thesis by simp
qed

lemma scaled_mono:
  "m \<le> n \<Longrightarrow> real_of_int m * ulp x \<le> real_of_int n * ulp x"
  by (rule mult_right_mono) simp_all


lemma nearest_lower:
  assumes "0 < x" and "- 1022 < binade x"
  shows "2 powi binade x \<le> nearest x"
proof -
  have x: "x \<noteq> 0" using assms(1) by simp
  have "2 powi binade x \<le> x" using binade_lower [OF x assms(2)] assms(1) by simp
  then have "ulp x * 2 ^ 52 \<le> x" by (simp only: ulp_mult)
  then have "real_of_int (2 ^ 52) \<le> x / ulp x"
    using ulp_pos [of x] by (simp add: pos_le_divide_eq mult.commute)
  then have "round_half_even (real_of_int (2 ^ 52)) \<le> round_half_even (x / ulp x)" by (rule rhe_mono)
  then have "2 ^ 52 \<le> round_half_even (x / ulp x)" by (simp only: rhe_int)
  then have "real_of_int (2 ^ 52) * ulp x \<le> real_of_int (round_half_even (x / ulp x)) * ulp x"
    by (rule scaled_mono)
  then show ?thesis using x by (simp add: nearest_def ulp_mult(1) [symmetric] mult.commute)
qed



lemma rhe_minus: "round_half_even (- y) = - round_half_even y"
proof (cases "y = of_int \<lfloor>y\<rfloor>")
  case True
  then have "round_half_even (- y) = round_half_even (of_int (- \<lfloor>y\<rfloor>))" by simp
  also have "\<dots> = - \<lfloor>y\<rfloor>" by (rule rhe_int)
  also have "\<dots> = - round_half_even (of_int \<lfloor>y\<rfloor>)" by (simp only: rhe_int)
  finally show ?thesis using True by simp
next
  case False
  then have lt: "of_int \<lfloor>y\<rfloor> < y" using of_int_floor_le [of y] by linarith
  have up: "y < of_int \<lfloor>y\<rfloor> + 1" by linarith
  have f: "\<lfloor>- y\<rfloor> = - \<lfloor>y\<rfloor> - 1"
  proof (rule floor_unique)
    show "of_int (- \<lfloor>y\<rfloor> - 1) \<le> - y"
      using up unfolding of_int_diff of_int_minus of_int_1 by linarith
    show "- y < of_int (- \<lfloor>y\<rfloor> - 1) + 1"
      using lt unfolding of_int_diff of_int_minus of_int_1 by linarith
  qed
  show ?thesis
    unfolding round_half_even_def Let_def f using lt
    by (auto simp: algebra_simps)
qed

lemma nearest_minus: "nearest (- x) = - nearest x"
  by (simp add: nearest_def ulp_def binade_def rhe_minus)

lemma rhe_small: "\<bar>y\<bar> \<le> 1 / 2 \<Longrightarrow> round_half_even y = 0"
proof -
  assume h: "\<bar>y\<bar> \<le> 1 / 2"
  show ?thesis
  proof (cases "0 \<le> y")
    case True
    with h have "\<lfloor>y\<rfloor> = 0" by (intro floor_unique) simp_all
    with h True show ?thesis by (simp add: round_half_even_def Let_def)
  next
    case False
    with h have "\<lfloor>y\<rfloor> = - 1" by (intro floor_unique) simp_all
    with h False show ?thesis by (auto simp: round_half_even_def Let_def)
  qed
qed

lemma nearest_underflow:
  assumes "\<bar>x\<bar> \<le> 2 powi (- 1075)"
  shows "nearest x = 0"
proof (cases "x = 0")
  case True
  then show ?thesis by simp
next
  case False
  have "(2::real) powi (- 1075) < 2 powi (- 1022)" by (rule two_powi_strict_mono) simp
  with assms have "\<bar>x\<bar> < 2 powi (- 1022)" by linarith
  from binade_subnormal [OF False this] have u: "ulp x = 2 powi (- 1074)" by (simp add: ulp_def)
  have "(2::real) powi (- 1074) = 2 powi (- 1075 + 1)" by simp
  also have "\<dots> = 2 powi (- 1075) * 2" by (simp only: two_powi_add) simp
  finally have "\<bar>x\<bar> \<le> ulp x / 2" using assms by (simp add: u)
  then have "\<bar>x\<bar> / ulp x \<le> 1 / 2"
    using ulp_pos [of x] by (simp add: pos_divide_le_eq)
  then have "\<bar>x / ulp x\<bar> \<le> 1 / 2" by simp
  then have "round_half_even (x / ulp x) = 0" by (rule rhe_small)
  then show ?thesis by (simp add: nearest_def)
qed



lemma nearest_large:
  assumes "2 powi e \<le> x" and "- 1022 < e"
  shows "2 powi e \<le> nearest x"
proof -
  have x: "0 < x" using assms(1) two_powi_pos [of e] by linarith
  have "e \<le> binade x"
  proof (rule ccontr)
    assume "\<not> e \<le> binade x"
    then have "binade x + 1 \<le> e" by simp
    from two_powi_mono [OF this] binade_upper [of x] x assms(1) show False by simp
  qed
  then have "(2::real) powi e \<le> 2 powi binade x" "- 1022 < binade x"
    using assms(2) by (simp_all add: two_powi_mono)
  with nearest_lower [OF x] show ?thesis by linarith
qed

lemma nearest_int_exact: "\<bar>n\<bar> < 2 ^ 53 \<Longrightarrow> nearest (of_int n) = of_int n"
  by (rule nearest_exact [where m = n and k = 0]) simp_all

lemma nearest_dyadic:
  "\<bar>m\<bar> < 2 ^ 53 \<Longrightarrow> k \<le> 1074 \<Longrightarrow> nearest (of_int m / 2 ^ k) = of_int m / 2 ^ k"
  by (rule nearest_exact [where m = m and k = "- int k"])
     (simp_all add: power_int_minus field_simps)

lemma nearest_scaled:
  "\<bar>m\<bar> < 2 ^ 53 \<Longrightarrow> nearest (of_int m * 2 ^ k) = of_int m * 2 ^ k"
  by (rule nearest_exact [where m = m and k = "int k"]) simp_all

lemma nearest_abs_large:
  assumes "2 ^ 1024 \<le> \<bar>x\<bar>"
  shows "2 ^ 1024 \<le> \<bar>nearest x\<bar>" and "0 < x \<Longrightarrow> 0 < nearest x" and "x < 0 \<Longrightarrow> nearest x < 0"
proof -
  have pos: "2 ^ 1024 \<le> nearest z" if "2 ^ 1024 \<le> z" for z :: real
    using nearest_large [of 1024 z] that by simp
  show "2 ^ 1024 \<le> \<bar>nearest x\<bar>"
  proof (cases "0 \<le> x")
    case True
    with assms pos [of x] show ?thesis by simp
  next
    case False
    with assms pos [of "- x"] show ?thesis by (simp add: nearest_minus)
  qed
  show "0 < nearest x" if "0 < x"
    using assms pos [of x] that by simp
  show "nearest x < 0" if "x < 0"
    using assms pos [of "- x"] that by (simp add: nearest_minus)
qed

lemma round64_overflow:
  "2 ^ 1024 \<le> x \<Longrightarrow> round64 x = PInf" "x \<le> - (2 ^ 1024) \<Longrightarrow> round64 x = NInf"
proof -
  assume h: "2 ^ 1024 \<le> x"
  then have a: "2 ^ 1024 \<le> \<bar>x\<bar>" "0 < x" by simp_all
  from nearest_abs_large(1) [OF a(1)] nearest_abs_large(2) [OF a] show "round64 x = PInf"
    by (simp add: round64_def signed_inf_def)
next
  assume h: "x \<le> - (2 ^ 1024)"
  then have a: "2 ^ 1024 \<le> \<bar>x\<bar>" "x < 0" by simp_all
  from nearest_abs_large(1) [OF a(1)] nearest_abs_large(3) [OF a]
  show "round64 x = NInf"
    by (simp add: round64_def signed_inf_def)
qed

lemma round64_exact:
  "nearest x = x \<Longrightarrow> \<bar>x\<bar> < 2 ^ 1024 \<Longrightarrow> round64 x = Fin x"
  by (simp add: round64_def)

lemma round64_int: "\<bar>n\<bar> < 2 ^ 53 \<Longrightarrow> round64 (of_int n) = Fin (of_int n)"
proof -
  assume h: "\<bar>n\<bar> < 2 ^ 53"
  then have "real_of_int \<bar>n\<bar> < real_of_int (2 ^ 53)" by (simp only: of_int_less_iff)
  then have "\<bar>real_of_int n\<bar> < 2 ^ 1024" by simp
  with nearest_int_exact [OF h] show ?thesis by (rule round64_exact)
qed

lemma round64_numeral [simp]:
  "(numeral w :: int) < 2 ^ 53 \<Longrightarrow> round64 (numeral w) = Fin (numeral w)"
  "(numeral w :: int) < 2 ^ 53 \<Longrightarrow> round64 (- numeral w) = Fin (- numeral w)"
  "round64 0 = Fin 0" "round64 1 = Fin 1"
  using round64_int [of "numeral w"] round64_int [of "- numeral w"] round64_int [of 0] round64_int [of 1]
  by simp_all

lemmas d_defs = d_add_def d_sub_def d_mul_def d_div_def d_sqrt_def d_pow2_def

lemma d_NaN [simp]:
  "d_add NaN x = NaN" "d_add x NaN = NaN" "d_sub NaN x = NaN" "d_sub x NaN = NaN"
  "d_mul NaN x = NaN" "d_mul x NaN = NaN" "d_div NaN x = NaN" "d_div x NaN = NaN"
  by (simp_all add: d_defs)

lemma round64_dyadic:
  "\<bar>m\<bar> < 2 ^ 53 \<Longrightarrow> k \<le> 1074 \<Longrightarrow> round64 (of_int m / 2 ^ k) = Fin (of_int m / 2 ^ k)"
proof (rule round64_exact)
  assume m: "\<bar>m\<bar> < 2 ^ 53" and k: "k \<le> 1074"
  then show "nearest (of_int m / 2 ^ k) = of_int m / 2 ^ k" by (rule nearest_dyadic)
  have "real_of_int \<bar>m\<bar> < real_of_int (2 ^ 53)" using m by (simp only: of_int_less_iff)
  then have "\<bar>real_of_int m\<bar> < 2 ^ 53" by simp
  moreover have "\<bar>real_of_int m / 2 ^ k\<bar> \<le> \<bar>real_of_int m\<bar>"
    by (simp add: divide_le_eq mult_le_cancel_left1)
  ultimately show "\<bar>real_of_int m / 2 ^ k\<bar> < 2 ^ 1024" by simp
qed

lemma round64_half [simp]: "round64 (1 / 2) = Fin (1 / 2)"
  using round64_dyadic [of 1 1] by simp







section \<open>The calibration fit on constant predictions\<close>

lemma shrink_not_finite:
  "\<not> is_fin (a c) \<Longrightarrow> \<not> is_fin (a (shrink c))"
  "\<not> is_fin (b c) \<Longrightarrow> \<not> is_fin (b (shrink c))"
proof -
  show "\<not> is_fin (a c) \<Longrightarrow> \<not> is_fin (a (shrink c))"
    by (cases "a c") (simp_all add: shrink_def Let_def signed_inf_def)
  show "\<not> is_fin (b c) \<Longrightarrow> \<not> is_fin (b (shrink c))"
    by (cases "b c") (simp_all add: shrink_def Let_def signed_inf_def)
qed

lemma stringify_not_finite: "\<not> is_fin v \<Longrightarrow> stringify_num v = JsonNull"
  by (cases v) simp_all

lemma fit_NaN_intercept: "a (linearRegression X y) = NaN \<Longrightarrow> b (linearRegression X y) = NaN"
  by (simp add: linearRegression_def Let_def)

text \<open>
  C4, as the claim states it, fails: three equal predictions \<open>1, 1, 1\<close> with targets
  \<open>1, 2, 3\<close> do not stop the calibration run. The fit divides \<open>0\<close> by \<open>0\<close>, both
  parameters are \<open>NaN\<close>, they survive the shrinkage, and \<^verbatim>\<open>calib.json\<close> is written with both
  fields \<^verbatim>\<open>null\<close>.
\<close>

theorem degenerate_fit_counterexample:
  "linearRegression [Fin 1, Fin 1, Fin 1] [Fin 1, Fin 2, Fin 3] = \<lparr>a = NaN, b = NaN\<rparr> \<and>
   calibration_main [Fin 1, Fin 1, Fin 1] [Fin 1, Fin 2, Fin 3] = \<lparr>a = NaN, b = NaN\<rparr> \<and>
   written_calibration (calibration_main [Fin 1, Fin 1, Fin 1] [Fin 1, Fin 2, Fin 3])
     = [(''a'', JsonNull), (''b'', JsonNull)]"
  by (simp add: linearRegression_def calibration_main_def shrink_def written_calibration_def
      Let_def signed_inf_def num_at_def d_defs)

text \<open>
  C4, amended: for every calibration input, with equal predictions or not, the fit raises
  no error. There is no test of the denominator: the slope is the quotient that the
  division gives, whatever the run computes from it is shrunk and written to
  \<^verbatim>\<open>calib.json\<close>, and a parameter that is \<open>NaN\<close> or infinite after the fit is still so
  after the shrinkage and is written as \<^verbatim>\<open>null\<close>. When the slope is \<open>NaN\<close> (as on the
  predictions \<open>1, 1, 1\<close>, where \<open>0\<close> is divided by \<open>0\<close>), the intercept is \<open>NaN\<close> too and
  both fields of the file are \<^verbatim>\<open>null\<close>.
\<close>

theorem degenerate_fit_persisted:
  "written_calibration (calibration_main X y)
     = [(''a'', stringify_num (a (calibration_main X y))),
        (''b'', stringify_num (b (calibration_main X y)))] \<and>
   (\<not> is_fin (a (linearRegression X y)) \<longrightarrow>
      \<not> is_fin (a (calibration_main X y)) \<and>
      map_of (written_calibration (calibration_main X y)) ''a'' = Some JsonNull) \<and>
   (\<not> is_fin (b (linearRegression X y)) \<longrightarrow>
      \<not> is_fin (b (calibration_main X y)) \<and>
      map_of (written_calibration (calibration_main X y)) ''b'' = Some JsonNull) \<and>
   (a (linearRegression X y) = NaN \<longrightarrow>
      linearRegression X y = \<lparr>a = NaN, b = NaN\<rparr> \<and>
      calibration_main X y = \<lparr>a = NaN, b = NaN\<rparr> \<and>
      written_calibration (calibration_main X y) = [(''a'', JsonNull), (''b'', JsonNull)])"
proof -
  have w: "written_calibration (calibration_main X y)
     = [(''a'', stringify_num (a (calibration_main X y))),
        (''b'', stringify_num (b (calibration_main X y)))]"
    by (simp add: written_calibration_def)
  have fa: "\<not> is_fin (a (calibration_main X y)) \<and>
      map_of (written_calibration (calibration_main X y)) ''a'' = Some JsonNull"
    if "\<not> is_fin (a (linearRegression X y))"
    using shrink_not_finite(1) [OF that]
    by (simp add: written_calibration_def calibration_main_def stringify_not_finite)
  have fb: "\<not> is_fin (b (calibration_main X y)) \<and>
      map_of (written_calibration (calibration_main X y)) ''b'' = Some JsonNull"
    if "\<not> is_fin (b (linearRegression X y))"
    using shrink_not_finite(2) [OF that]
    by (simp add: written_calibration_def calibration_main_def stringify_not_finite)
  have n: "linearRegression X y = \<lparr>a = NaN, b = NaN\<rparr> \<and>
      calibration_main X y = \<lparr>a = NaN, b = NaN\<rparr> \<and>
      written_calibration (calibration_main X y) = [(''a'', JsonNull), (''b'', JsonNull)]"
    if "a (linearRegression X y) = NaN"
  proof -
    from that fit_NaN_intercept [OF that]
    have "linearRegression X y = \<lparr>a = NaN, b = NaN\<rparr>" by simp
    then show ?thesis
      by (simp add: calibration_main_def shrink_def written_calibration_def Let_def)
  qed
  from w fa fb n show ?thesis by blast
qed

text \<open>C4 on two predictions \<open>5, 5\<close> with the targets \<open>2, 8\<close>.\<close>

theorem degenerate_fit_persisted_witness:
  "linearRegression [Fin 5, Fin 5] [Fin 2, Fin 8] = \<lparr>a = NaN, b = NaN\<rparr> \<and>
   calibration_main [Fin 5, Fin 5] [Fin 2, Fin 8] = \<lparr>a = NaN, b = NaN\<rparr> \<and>
   written_calibration (calibration_main [Fin 5, Fin 5] [Fin 2, Fin 8])
     = [(''a'', JsonNull), (''b'', JsonNull)]"
proof -
  have h: "a (linearRegression [Fin 5, Fin 5] [Fin 2, Fin 8]) = NaN"
    by (simp add: linearRegression_def Let_def num_at_def signed_inf_def d_defs)
  from degenerate_fit_persisted [of "[Fin 5, Fin 5]" "[Fin 2, Fin 8]"] h
  show ?thesis by blast
qed

section \<open>Shrinkage\<close>

text \<open>
  C5: whatever the fit returns, the parameters of the calibration object are
  \<open>0.7 * a + 0.3\<close> and \<open>0.7 * b\<close>, in the arithmetic of the language (so a \<open>NaN\<close> or
  infinite fit stays \<open>NaN\<close> or infinite); for a finite fit \<open>(x, y)\<close> they are the real
  numbers \<open>0.7 * x + 0.3\<close> and \<open>0.7 * y\<close>, and these are the numbers written to the file.
\<close>

theorem shrinkage_blend:
  "a (calibration_main yPred yTrue)
     = js_add (js_mul (Fin (7 / 10)) (a (linearRegression yPred yTrue))) (Fin (3 / 10)) \<and>
   b (calibration_main yPred yTrue) = js_mul (Fin (7 / 10)) (b (linearRegression yPred yTrue)) \<and>
   (linearRegression yPred yTrue = \<lparr>a = Fin x, b = Fin y\<rparr> \<longrightarrow>
      calibration_main yPred yTrue = \<lparr>a = Fin (7 / 10 * x + 3 / 10), b = Fin (7 / 10 * y)\<rparr> \<and>
      written_calibration (calibration_main yPred yTrue)
        = [(''a'', JsonNum (7 / 10 * x + 3 / 10)), (''b'', JsonNum (7 / 10 * y))])"
  by (cases "a (linearRegression yPred yTrue)"; cases "b (linearRegression yPred yTrue)")
     (auto simp add: calibration_main_def shrink_def written_calibration_def Let_def signed_inf_def)

theorem shrinkage_blend_witness:
  "linearRegression [Fin 0, Fin 1] [Fin 1, Fin 3] = \<lparr>a = Fin 2, b = Fin 1\<rparr> \<and>
   calibration_main [Fin 0, Fin 1] [Fin 1, Fin 3] = \<lparr>a = Fin (17 / 10), b = Fin (7 / 10)\<rparr> \<and>
   written_calibration (calibration_main [Fin 0, Fin 1] [Fin 1, Fin 3])
     = [(''a'', JsonNum (17 / 10)), (''b'', JsonNum (7 / 10))]"
proof -
  have h: "linearRegression [Fin 0, Fin 1] [Fin 1, Fin 3] = \<lparr>a = Fin 2, b = Fin 1\<rparr>"
    by (simp add: linearRegression_def Let_def num_at_def d_defs)
  from shrinkage_blend [of "[Fin 0, Fin 1]" "[Fin 1, Fin 3]" 2 1] h
  have "calibration_main [Fin 0, Fin 1] [Fin 1, Fin 3] = \<lparr>a = Fin (17 / 10), b = Fin (7 / 10)\<rparr> \<and>
    written_calibration (calibration_main [Fin 0, Fin 1] [Fin 1, Fin 3])
      = [(''a'', JsonNum (17 / 10)), (''b'', JsonNum (7 / 10))]"
    by (simp add: written_calibration_def)
  with h show ?thesis by blast
qed

section \<open>The prediction service: loaders and handler\<close>

lemmas loader_defs = loadModel_def loadScaler_def loadCalibration_def

lemma loadModel_reads:
  "read_step Model s (snd (loadModel fs s))"
  "x \<noteq> Model \<Longrightarrow> cached x (snd (loadModel fs s)) = cached x s"
  "x \<noteq> Model \<Longrightarrow> reads x (snd (loadModel fs s)) = reads x s"
  by (cases x; simp add: loadModel_def reads_def read_step_def split: option.splits)+

lemma loadScaler_reads:
  "read_step Scaler s (snd (loadScaler fs s))"
  "x \<noteq> Scaler \<Longrightarrow> cached x (snd (loadScaler fs s)) = cached x s"
  "x \<noteq> Scaler \<Longrightarrow> reads x (snd (loadScaler fs s)) = reads x s"
  by (cases x; simp add: loadScaler_def reads_def read_step_def split: option.splits)+

lemma loadCalibration_reads:
  "read_step Calib s (loadCalibration fs s)"
  "x \<noteq> Calib \<Longrightarrow> cached x (loadCalibration fs s) = cached x s"
  "x \<noteq> Calib \<Longrightarrow> reads x (loadCalibration fs s) = reads x s"
  by (cases x; simp add: loadCalibration_def reads_def read_step_def split: option.splits)+

lemma predicted_reads:
  "cached x (s\<lparr>log := log s @ [Predicted Xs]\<rparr>) = cached x s"
  "reads x (s\<lparr>log := log s @ [Predicted Xs]\<rparr>) = reads x s"
  by (cases x; simp add: reads_def)+

lemma loader_fields:
  "model (snd (loadModel fs s)) = available (model s) (model_file fs)"
  "scaler (snd (loadModel fs s)) = scaler s"
  "calib (snd (loadModel fs s)) = calib s"
  "model (snd (loadScaler fs s)) = model s"
  "scaler (snd (loadScaler fs s)) = available (scaler s) (scaler_file fs)"
  "calib (snd (loadScaler fs s)) = calib s"
  "model (loadCalibration fs s) = model s"
  "scaler (loadCalibration fs s) = scaler s"
  "calib (loadCalibration fs s) = available (calib s) (calib_file fs)"
  by (simp_all add: loader_defs available_def split: option.splits)

lemma loader_success:
  "fst (loadModel fs s) \<longleftrightarrow> available (model s) (model_file fs) \<noteq> None"
  "fst (loadScaler fs s) \<longleftrightarrow> available (scaler s) (scaler_file fs) \<noteq> None"
  by (simp_all add: loader_defs available_def split: option.splits)

lemma handler_state_cases:
  fixes fs s data
  defines "s1 \<equiv> snd (loadModel fs s)"
  defines "s2 \<equiv> snd (loadScaler fs s1)"
  defines "s3 \<equiv> loadCalibration fs s2"
  shows "(snd (predict_handler fs s data) = s1 \<and> \<not> fst (loadModel fs s)) \<or>
         (snd (predict_handler fs s data) = s2 \<and> \<not> fst (loadScaler fs s1)) \<or>
         snd (predict_handler fs s data) = s3 \<or>
         (\<exists>Xs. snd (predict_handler fs s data) = s3\<lparr>log := log s3 @ [Predicted Xs]\<rparr>)"
  unfolding predict_handler_def Let_def s1_def s2_def s3_def
  by (cases "loadModel fs s"; cases "loadScaler fs (snd (loadModel fs s))")
     (auto split: option.splits bool.splits)

lemma read_step_same:
  "cached x s' = cached x s \<Longrightarrow> reads x s' = reads x s \<Longrightarrow> read_step x s s'"
  by (simp add: read_step_def)

lemma read_step_then_same:
  "read_step x s t \<Longrightarrow> cached x s' = cached x t \<Longrightarrow> reads x s' = reads x t \<Longrightarrow> read_step x s s'"
  by (simp add: read_step_def)

lemma read_step_after_same:
  "cached x t = cached x s \<Longrightarrow> reads x t = reads x s \<Longrightarrow> read_step x t s' \<Longrightarrow> read_step x s s'"
  by (simp add: read_step_def)

lemma handler_read_step: "read_step x s (snd (predict_handler fs s data))"
proof -
  let ?s1 = "snd (loadModel fs s)"
  let ?s2 = "snd (loadScaler fs ?s1)"
  let ?s3 = "loadCalibration fs ?s2"
  have s1: "read_step x s ?s1"
    by (cases "x = Model") (auto intro!: read_step_same simp: loadModel_reads simp del: cached.simps)
  have s2: "read_step x s ?s2"
  proof (cases "x = Scaler")
    case True
    have "read_step Scaler s ?s2"
      by (rule read_step_after_same [where t = ?s1]) (simp_all add: loadModel_reads loadScaler_reads del: cached.simps)
    with True show ?thesis by simp
  next
    case False
    with s1 show ?thesis
      by (rule_tac read_step_then_same [where t = ?s1]) (simp_all add: loadScaler_reads del: cached.simps)
  qed
  have s3: "read_step x s ?s3"
  proof (cases "x = Calib")
    case True
    have "read_step Calib s ?s3"
      by (rule read_step_after_same [where t = ?s2])
         (simp_all add: loadModel_reads loadScaler_reads loadCalibration_reads del: cached.simps)
    with True show ?thesis by simp
  next
    case False
    with s2 show ?thesis
      by (rule_tac read_step_then_same [where t = ?s2]) (simp_all add: loadCalibration_reads del: cached.simps)
  qed
  have s4: "read_step x s (?s3\<lparr>log := log ?s3 @ [Predicted Xs]\<rparr>)" for Xs
    using s3 by (rule read_step_then_same) (simp_all add: predicted_reads del: cached.simps)
  from handler_state_cases [of fs s data] s1 s2 s3 s4 show ?thesis
    by auto
qed

lemma load_once_step: "load_once x s \<Longrightarrow> read_step x s s' \<Longrightarrow> load_once x s'"
  unfolding load_once_def read_step_def
proof (elim exE disjE conjE)
  fix k assume "reads x s = replicate k (ReadFailed x) @ (if cached x s then [Loaded x] else [])"
    "cached x s' = cached x s" "reads x s' = reads x s"
  then show "\<exists>k. reads x s' = replicate k (ReadFailed x) @ (if cached x s' then [Loaded x] else [])"
    by auto
next
  fix k assume "reads x s = replicate k (ReadFailed x) @ (if cached x s then [Loaded x] else [])"
    "\<not> cached x s" "\<not> cached x s'" "reads x s' = reads x s @ [ReadFailed x]"
  then have "reads x s' = replicate (Suc k) (ReadFailed x) @ (if cached x s' then [Loaded x] else [])"
    by (simp add: replicate_append_same)
  then show "\<exists>k. reads x s' = replicate k (ReadFailed x) @ (if cached x s' then [Loaded x] else [])"
    by blast
next
  fix k assume "reads x s = replicate k (ReadFailed x) @ (if cached x s then [Loaded x] else [])"
    "\<not> cached x s" "cached x s'" "reads x s' = reads x s @ [Loaded x]"
  then have "reads x s' = replicate k (ReadFailed x) @ (if cached x s' then [Loaded x] else [])"
    by simp
  then show "\<exists>k. reads x s' = replicate k (ReadFailed x) @ (if cached x s' then [Loaded x] else [])"
    by blast
qed

lemma load_once_serve: "load_once x s \<Longrightarrow> load_once x (snd (serve s reqs))"
proof (induction reqs arbitrary: s)
  case Nil
  then show ?case by simp
next
  case (Cons r reqs)
  obtain fs data where r: "r = (fs, data)" by (cases r)
  have "load_once x (snd (predict_handler fs s data))"
    using Cons.prems handler_read_step by (rule load_once_step)
  from Cons.IH [OF this] show ?case
    by (simp add: r split_beta)
qed

lemma load_once_initial: "load_once x initial"
  by (cases x) (simp_all add: load_once_def reads_def initial_def)

lemma count_list_replicate_other: "y \<noteq> z \<Longrightarrow> count_list (replicate k z) y = 0"
  by (induction k) auto

lemma count_list_filter_same: "P y \<Longrightarrow> count_list (filter P xs) y = count_list xs y"
  by (induction xs) auto

lemma load_once_count: "load_once x s \<Longrightarrow> count_list (log s) (Loaded x) \<le> 1"
proof -
  assume "load_once x s"
  then obtain k where k: "reads x s = replicate k (ReadFailed x) @ (if cached x s then [Loaded x] else [])"
    by (auto simp: load_once_def)
  have "count_list (log s) (Loaded x) = count_list (reads x s) (Loaded x)"
    unfolding reads_def by (simp add: count_list_filter_same)
  also have "\<dots> \<le> 1" by (simp add: k count_list_replicate_other)
  finally show ?thesis .
qed

lemma predictions_append [simp]:
  "predictions (s\<lparr>log := log s @ [Loaded x]\<rparr>) = predictions s"
  "predictions (s\<lparr>log := log s @ [ReadFailed x]\<rparr>) = predictions s"
  "predictions (s\<lparr>log := log s @ [Predicted Xs]\<rparr>) = predictions s @ [Xs]"
  by (simp_all add: predictions_def)

lemma predictions_upd [simp]:
  "predictions (s\<lparr>model := mo\<rparr>) = predictions s"
  "predictions (s\<lparr>scaler := so\<rparr>) = predictions s"
  "predictions (s\<lparr>calib := co\<rparr>) = predictions s"
  by (simp_all add: predictions_def)

lemma loadModel_available:
  assumes "available (model s) (model_file fs) = Some m"
  shows "\<exists>s1. loadModel fs s = (True, s1) \<and> model s1 = Some m \<and> scaler s1 = scaler s \<and>
           calib s1 = calib s \<and> predictions s1 = predictions s"
  using assms
  by (cases "model s"; cases "model_file fs") (simp_all add: loadModel_def available_def predictions_def)

lemma loadScaler_available:
  assumes "available (scaler s) (scaler_file fs) = Some sc"
  shows "\<exists>s2. loadScaler fs s = (True, s2) \<and> scaler s2 = Some sc \<and> model s2 = model s \<and>
           calib s2 = calib s \<and> predictions s2 = predictions s"
  using assms
  by (cases "scaler s"; cases "scaler_file fs") (simp_all add: loadScaler_def available_def predictions_def)

lemma loadCalibration_available:
  "calib (loadCalibration fs s) = available (calib s) (calib_file fs) \<and>
   model (loadCalibration fs s) = model s \<and> scaler (loadCalibration fs s) = scaler s \<and>
   predictions (loadCalibration fs s) = predictions s"
  by (cases "calib s"; cases "calib_file fs") (simp_all add: loadCalibration_def available_def predictions_def)

lemma handler_loaded:
  assumes "available (model s) (model_file fs) = Some m"
    and "available (scaler s) (scaler_file fs) = Some sc"
  shows "\<exists>s3. predictions s3 = predictions s \<and>
    predict_handler fs s data =
     (if missing_fields data \<noteq> [] then
        (Error 400 (''Missing fields: '' @ join '', '' (missing_fields data)), s3)
      else case parse_features data of
        None \<Rightarrow> (Error 400 (''Invalid input types: '' @ parse_message data), s3)
      | Some X \<Rightarrow>
          (Premium (round2 (calibrate (available (calib s) (calib_file fs))
             (m (scaleFeatures X sc)))), s3\<lparr>log := log s3 @ [Predicted (scaleFeatures X sc)]\<rparr>))"
proof -
  from loadModel_available [OF assms(1)] obtain s1 where
    l1: "loadModel fs s = (True, s1)" and s1: "model s1 = Some m" "scaler s1 = scaler s"
      "calib s1 = calib s" "predictions s1 = predictions s"
    by blast
  from assms(2) s1 have "available (scaler s1) (scaler_file fs) = Some sc" by simp
  from loadScaler_available [OF this] obtain s2 where
    l2: "loadScaler fs s1 = (True, s2)" and s2: "scaler s2 = Some sc" "model s2 = model s1"
      "calib s2 = calib s1" "predictions s2 = predictions s1"
    by blast
  let ?s3 = "loadCalibration fs s2"
  have s3: "calib ?s3 = available (calib s) (calib_file fs)" "model ?s3 = Some m"
    "scaler ?s3 = Some sc" "predictions ?s3 = predictions s"
    using loadCalibration_available [of fs s2] s1 s2 by simp_all
  have "predict_handler fs s data =
     (if missing_fields data \<noteq> [] then
        (Error 400 (''Missing fields: '' @ join '', '' (missing_fields data)), ?s3)
      else case parse_features data of
        None \<Rightarrow> (Error 400 (''Invalid input types: '' @ parse_message data), ?s3)
      | Some X \<Rightarrow>
          (Premium (round2 (calibrate (available (calib s) (calib_file fs))
             (m (scaleFeatures X sc)))), ?s3\<lparr>log := log ?s3 @ [Predicted (scaleFeatures X sc)]\<rparr>))"
    by (simp add: predict_handler_def l1 l2 Let_def s3 split: option.split)
  with s3(4) show ?thesis by blast
qed

lemma handler_response:
  assumes "available (model s) (model_file fs) = Some m"
    and "available (scaler s) (scaler_file fs) = Some sc"
  shows "fst (predict_handler fs s data) =
    (if missing_fields data \<noteq> [] then
       Error 400 (''Missing fields: '' @ join '', '' (missing_fields data))
     else case parse_features data of
       None \<Rightarrow> Error 400 (''Invalid input types: '' @ parse_message data)
     | Some X \<Rightarrow>
         Premium (round2 (calibrate (available (calib s) (calib_file fs))
           (m (scaleFeatures X sc)))))"
proof -
  from handler_loaded [OF assms, of data] obtain s3 where
    "predict_handler fs s data =
     (if missing_fields data \<noteq> [] then
        (Error 400 (''Missing fields: '' @ join '', '' (missing_fields data)), s3)
      else case parse_features data of
        None \<Rightarrow> (Error 400 (''Invalid input types: '' @ parse_message data), s3)
      | Some X \<Rightarrow>
          (Premium (round2 (calibrate (available (calib s) (calib_file fs))
             (m (scaleFeatures X sc)))), s3\<lparr>log := log s3 @ [Predicted (scaleFeatures X sc)]\<rparr>))"
    by blast
  then show ?thesis by (simp split: option.split)
qed

lemma handler_predictions:
  assumes "available (model s) (model_file fs) = Some m"
    and "available (scaler s) (scaler_file fs) = Some sc"
  shows "predictions (snd (predict_handler fs s data)) = predictions s @
    (if missing_fields data \<noteq> [] then []
     else case parse_features data of None \<Rightarrow> [] | Some X \<Rightarrow> [scaleFeatures X sc])"
proof -
  from handler_loaded [OF assms, of data] obtain s3 where
    "predictions s3 = predictions s"
    "predict_handler fs s data =
     (if missing_fields data \<noteq> [] then
        (Error 400 (''Missing fields: '' @ join '', '' (missing_fields data)), s3)
      else case parse_features data of
        None \<Rightarrow> (Error 400 (''Invalid input types: '' @ parse_message data), s3)
      | Some X \<Rightarrow>
          (Premium (round2 (calibrate (available (calib s) (calib_file fs))
             (m (scaleFeatures X sc)))), s3\<lparr>log := log s3 @ [Predicted (scaleFeatures X sc)]\<rparr>))"
    by blast
  then show ?thesis by (simp split: option.split)
qed

lemma handler_fields:
  "model (snd (predict_handler fs s data)) = available (model s) (model_file fs)"
  "scaler (snd (predict_handler fs s data)) = scaler s \<or>
   scaler (snd (predict_handler fs s data)) = available (scaler s) (scaler_file fs)"
  "calib (snd (predict_handler fs s data)) = calib s \<or>
   calib (snd (predict_handler fs s data)) = available (calib s) (calib_file fs)"
  using handler_state_cases [of fs s data]
  by (auto simp: loader_fields)

lemma handler_calib_retry:
  assumes "available (model s) (model_file fs) \<noteq> None"
    and "available (scaler s) (scaler_file fs) \<noteq> None"
    and "calib s = None" and "calib_file fs = None"
  shows "calib (snd (predict_handler fs s data)) = None \<and>
         reads Calib (snd (predict_handler fs s data)) = reads Calib s @ [ReadFailed Calib]"
proof -
  let ?s1 = "snd (loadModel fs s)"
  let ?s2 = "snd (loadScaler fs ?s1)"
  let ?s3 = "loadCalibration fs ?s2"
  have ok: "fst (loadModel fs s)" "fst (loadScaler fs ?s1)"
    using assms(1,2) by (simp_all add: loader_success loader_fields)
  have c2: "calib ?s2 = None"
    using assms(3) by (simp add: loader_fields)
  have "reads Calib ?s2 = reads Calib s"
    by (simp add: loadModel_reads loadScaler_reads)
  moreover have "reads Calib ?s3 = reads Calib ?s2 @ [ReadFailed Calib]" "calib ?s3 = None"
    using c2 assms(4) by (simp_all add: loadCalibration_def reads_def)
  ultimately have s3: "calib ?s3 = None" "reads Calib ?s3 = reads Calib s @ [ReadFailed Calib]"
    by simp_all
  then have "calib (?s3\<lparr>log := log ?s3 @ [Predicted Xs]\<rparr>) = None \<and>
      reads Calib (?s3\<lparr>log := log ?s3 @ [Predicted Xs]\<rparr>) = reads Calib s @ [ReadFailed Calib]" for Xs
    by (simp add: reads_def)
  with s3 ok handler_state_cases [of fs s data] show ?thesis
    by auto
qed

lemma handler_fatal:
  "available (model s) (model_file fs) = None \<Longrightarrow> fst (predict_handler fs s data) = internal_error"
  "available (model s) (model_file fs) \<noteq> None \<Longrightarrow> available (scaler s) (scaler_file fs) = None \<Longrightarrow>
     fst (predict_handler fs s data) = internal_error"
proof -
  assume "available (model s) (model_file fs) = None"
  then have "\<not> fst (loadModel fs s)" by (simp add: loader_success)
  then show "fst (predict_handler fs s data) = internal_error"
    by (cases "loadModel fs s") (simp add: predict_handler_def)
next
  assume "available (model s) (model_file fs) \<noteq> None" "available (scaler s) (scaler_file fs) = None"
  then have "fst (loadModel fs s)" "\<not> fst (loadScaler fs (snd (loadModel fs s)))"
    by (simp_all add: loader_success loader_fields)
  then show "fst (predict_handler fs s data) = internal_error"
    by (cases "loadModel fs s"; cases "loadScaler fs (snd (loadModel fs s))")
       (simp add: predict_handler_def)
qed

section \<open>Sample requests\<close>

lemmas validation_defs = missing_fields_def parse_features_def covA_def js_or_def parseFloat_def
  parse_throws_def parseFloat_throws_def parse_message_def Let_def

lemmas parse_string_defs = parseFloat_string_def unsigned_decimal_def exponent_part_def
  scale10_def digits_val_def digit_val_def is_digit_def is_space_def ustr_def code_unit_def

lemma sample_available:
  "available (model initial) (model_file (sample_files cal)) = Some sample_model"
  "available (scaler initial) (scaler_file (sample_files cal)) = Some sample_scaler"
  "available (calib initial) (calib_file (sample_files cal)) = cal"
  by (simp_all add: initial_def available_def sample_files_def)

lemma scenario_valid:
  "missing_fields scenario_body = []"
  "parse_features scenario_body = Some [Fin 3, Fin 2000, Fin 250000, Fin 15]"
  by (simp_all add: validation_defs scenario_body_def)

lemma scenario_scaled:
  "scaleFeatures [Fin 3, Fin 2000, Fin 250000, Fin 15] sample_scaler = [Fin 1, Fin 1, Fin 1, Fin 1]"
  by (simp add: scaleFeatures_def sample_scaler_def json_at_def upt_rec)

lemma clamp_below_zero: "js_lt v (Fin 0) \<Longrightarrow> round2 (js_max (Fin 0) v) = Fin 0"
  by (cases v) (simp_all add: round2_def max_def)

lemma calibrate_cases:
  "calibrate None pred = pred"
  "c ''a'' = Some ca \<Longrightarrow> c ''b'' = Some cb \<Longrightarrow>
     calibrate (Some c) pred = js_max (Fin 0) (js_add (js_mul (to_number ca) pred) (to_number cb))"
  "c ''a'' = None \<or> c ''b'' = None \<Longrightarrow> calibrate (Some c) pred = pred"
  by (auto simp: calibrate_def split: option.splits)

section \<open>Calibration and the floor at zero\<close>

lemma round2_Fin: "round2 (Fin x) = Fin (real_of_int \<lfloor>x * 100 + 1 / 2\<rfloor> / 100)"
  by (simp add: round2_def)

lemma clamp_Fin: "js_max (Fin 0) (js_add (js_mul (Fin ra) (Fin p)) (Fin rb)) = Fin (max 0 (ra * p + rb))"
  by simp

text \<open>
  C1: for every request that passes validation (no field is reported missing and the four
  values parse), with model \<open>m\<close> and scaler \<open>sc\<close> in place and \<open>pred\<close> the model's output
  on the scaled row: if the calibration object has the fields \<open>a\<close> and \<open>b\<close>, the served
  premium is \<open>max(0, a * pred + b)\<close> rounded to two decimals, and it is exactly \<open>0\<close> when
  \<open>a * pred + b\<close> is below \<open>0\<close>; if there is no calibration (no file, or an object without
  \<open>a\<close> or without \<open>b\<close>), the served premium is \<open>pred\<close> rounded to two decimals, with no
  floor. For real numbers \<open>a\<close>, \<open>b\<close> and \<open>pred\<close> the two served values are the real numbers
  \<open>\<lfloor>max 0 (a * pred + b) * 100 + 1/2\<rfloor> / 100\<close> and \<open>\<lfloor>pred * 100 + 1/2\<rfloor> / 100\<close>.
\<close>

theorem calibration_clamp:
  assumes "available (model s) (model_file fs) = Some m"
    and "available (scaler s) (scaler_file fs) = Some sc"
    and "missing_fields data = []" and "parse_features data = Some X"
  shows
    "(available (calib s) (calib_file fs) = Some c \<and> c ''a'' = Some ca \<and> c ''b'' = Some cb \<longrightarrow>
        fst (predict_handler fs s data)
          = Premium (round2 (js_max (Fin 0)
              (js_add (js_mul (to_number ca) (m (scaleFeatures X sc))) (to_number cb)))) \<and>
        (js_lt (js_add (js_mul (to_number ca) (m (scaleFeatures X sc))) (to_number cb)) (Fin 0)
           \<longrightarrow> fst (predict_handler fs s data) = Premium (Fin 0)) \<and>
        (ca = JsonNum ra \<and> cb = JsonNum rb \<and> m (scaleFeatures X sc) = Fin p \<longrightarrow>
           fst (predict_handler fs s data)
             = Premium (Fin (real_of_int \<lfloor>max 0 (ra * p + rb) * 100 + 1 / 2\<rfloor> / 100)))) \<and>
     (available (calib s) (calib_file fs) = None \<or>
      (available (calib s) (calib_file fs) = Some c \<and> (c ''a'' = None \<or> c ''b'' = None)) \<longrightarrow>
        fst (predict_handler fs s data) = Premium (round2 (m (scaleFeatures X sc))) \<and>
        (m (scaleFeatures X sc) = Fin p \<longrightarrow>
           fst (predict_handler fs s data)
             = Premium (Fin (real_of_int \<lfloor>p * 100 + 1 / 2\<rfloor> / 100))))"
proof -
  note r = handler_response [OF assms(1,2), of data]
  have cal: "fst (predict_handler fs s data)
          = Premium (round2 (js_max (Fin 0)
              (js_add (js_mul (to_number ca) (m (scaleFeatures X sc))) (to_number cb))))"
    if "available (calib s) (calib_file fs) = Some c" "c ''a'' = Some ca" "c ''b'' = Some cb"
    using r assms(3,4) that by (simp add: calibrate_cases)
  have raw: "fst (predict_handler fs s data) = Premium (round2 (m (scaleFeatures X sc)))"
    if "available (calib s) (calib_file fs) = None \<or>
      (available (calib s) (calib_file fs) = Some c \<and> (c ''a'' = None \<or> c ''b'' = None))"
    using r assms(3,4) that by (auto simp: calibrate_cases)
  have neg: "round2 (js_max (Fin 0) v) = Fin 0" if "js_lt v (Fin 0)" for v
    using that by (rule clamp_below_zero)
  have fin: "round2 (js_max (Fin 0) (js_add (js_mul (to_number ca) (m (scaleFeatures X sc)))
        (to_number cb))) = Fin (real_of_int \<lfloor>max 0 (ra * p + rb) * 100 + 1 / 2\<rfloor> / 100)"
    if "ca = JsonNum ra" "cb = JsonNum rb" "m (scaleFeatures X sc) = Fin p"
    unfolding that to_number.simps clamp_Fin round2_Fin ..
  have fin_raw: "round2 (m (scaleFeatures X sc)) = Fin (real_of_int \<lfloor>p * 100 + 1 / 2\<rfloor> / 100)"
    if "m (scaleFeatures X sc) = Fin p"
    unfolding that round2_Fin ..
  from cal raw neg fin fin_raw show ?thesis by metis
qed

text \<open>
  C1 on the scenario request, whose raw prediction is \<open>4\<close>, and on two variants with the
  raw predictions \<open>4.126\<close> and \<open>-2.5\<close>. With the calibration \<open>a = -1, b = 1\<close> the
  calibrated value \<open>-3\<close> is served as \<open>0\<close>; with \<open>a = 1/2, b = 1/8\<close> the calibrated
  value \<open>2.188\<close> is served as \<open>2.19\<close>; with no calibration file \<open>4.126\<close> is served as
  \<open>4.13\<close> and \<open>-2.5\<close> as it is.
\<close>

theorem calibration_clamp_witness:
  "fst (predict_handler (sample_files (Some sample_calib)) initial scenario_body) = Premium (Fin 0) \<and>
   fst (predict_handler (sample_files (Some half_calib)) initial fraction_body)
     = Premium (Fin (219 / 100)) \<and>
   fst (predict_handler (sample_files None) initial fraction_body) = Premium (Fin (413 / 100)) \<and>
   fst (predict_handler (sample_files None) initial negative_body) = Premium (Fin (- 5 / 2))"
proof -
  have neg: "js_lt (js_add (js_mul (to_number (JsonNum (- 1)))
      (sample_model (scaleFeatures [Fin 3, Fin 2000, Fin 250000, Fin 15] sample_scaler)))
      (to_number (JsonNum 1))) (Fin 0)"
    by (simp add: scenario_scaled sample_model_def)
  have ab: "sample_calib ''a'' = Some (JsonNum (- 1))" "sample_calib ''b'' = Some (JsonNum 1)"
    "half_calib ''a'' = Some (JsonNum (1 / 2))" "half_calib ''b'' = Some (JsonNum (1 / 8))"
    by (simp_all add: sample_calib_def half_calib_def)
  have frac: "missing_fields fraction_body = []"
    "parse_features fraction_body = Some [Fin 3, Fin 2126, Fin 250000, Fin 15]"
    by (simp_all add: validation_defs fraction_body_def)
  have frac_pred:
    "sample_model (scaleFeatures [Fin 3, Fin 2126, Fin 250000, Fin 15] sample_scaler) = Fin (4126 / 1000)"
    by (simp add: scaleFeatures_def sample_scaler_def json_at_def upt_rec sample_model_def)
  have nega: "missing_fields negative_body = []"
    "parse_features negative_body = Some [Fin (- 7 / 2), Fin 2000, Fin 250000, Fin 15]"
    by (simp_all add: validation_defs negative_body_def)
  have nega_pred:
    "sample_model (scaleFeatures [Fin (- 7 / 2), Fin 2000, Fin 250000, Fin 15] sample_scaler)
       = Fin (- 5 / 2)"
    by (simp add: scaleFeatures_def sample_scaler_def json_at_def upt_rec sample_model_def)
  have fl: "\<lfloor>max 0 (1 / 2 * (4126 / 1000) + 1 / 8) * 100 + 1 / 2 :: real\<rfloor> = 219"
    "\<lfloor>4126 / 1000 * 100 + 1 / 2 :: real\<rfloor> = 413" "\<lfloor>- 5 / 2 * 100 + 1 / 2 :: real\<rfloor> = - 250"
    by (simp_all add: floor_eq_iff)
  from calibration_clamp [OF sample_available(1,2) scenario_valid,
      of "Some sample_calib" sample_calib "JsonNum (- 1)" "JsonNum 1"] neg ab
  have 1: "fst (predict_handler (sample_files (Some sample_calib)) initial scenario_body)
      = Premium (Fin 0)"
    unfolding sample_available by blast
  from calibration_clamp [OF sample_available(1,2) frac,
      of "Some half_calib" half_calib "JsonNum (1 / 2)" "JsonNum (1 / 8)" "1 / 2" "1 / 8" "4126 / 1000"]
    ab frac_pred
  have "fst (predict_handler (sample_files (Some half_calib)) initial fraction_body)
      = Premium (Fin (real_of_int \<lfloor>max 0 (1 / 2 * (4126 / 1000) + 1 / 8) * 100 + 1 / 2 :: real\<rfloor> / 100))"
    unfolding sample_available by blast
  then have 2: "fst (predict_handler (sample_files (Some half_calib)) initial fraction_body)
      = Premium (Fin (219 / 100))"
    unfolding fl by simp
  from calibration_clamp [OF sample_available(1,2) frac, of None _ _ _ _ _ "4126 / 1000"] frac_pred
  have "fst (predict_handler (sample_files None) initial fraction_body)
      = Premium (Fin (real_of_int \<lfloor>4126 / 1000 * 100 + 1 / 2 :: real\<rfloor> / 100))"
    unfolding sample_available by blast
  then have 3: "fst (predict_handler (sample_files None) initial fraction_body)
      = Premium (Fin (413 / 100))"
    unfolding fl by simp
  from calibration_clamp [OF sample_available(1,2) nega, of None _ _ _ _ _ "- 5 / 2"] nega_pred
  have "fst (predict_handler (sample_files None) initial negative_body)
      = Premium (Fin (real_of_int \<lfloor>- 5 / 2 * 100 + 1 / 2 :: real\<rfloor> / 100))"
    unfolding sample_available by blast
  then have 4: "fst (predict_handler (sample_files None) initial negative_body)
      = Premium (Fin (- 5 / 2))"
    unfolding fl by simp
  from 1 2 3 4 show ?thesis by simp
qed

section \<open>Validation of the request\<close>

lemma covA_None_iff:
  "covA data = None \<longleftrightarrow>
     data ''Property Value'' = None \<and>
     (case data ''Coverage A'' of None \<Rightarrow> True | Some v \<Rightarrow> \<not> truthy v)"
  by (auto simp: covA_def js_or_def split: option.splits)

lemma parse_features_None_iff:
  "parse_features data = None \<longleftrightarrow>
     parse_throws data \<or>
     js_isNaN (parseFloat (data ''Bedrooms'')) \<or> js_isNaN (parseFloat (data ''Square Footage'')) \<or>
     js_isNaN (parseFloat (covA data)) \<or> js_isNaN (parseFloat (data ''Age of Home''))"
  by (simp add: parse_features_def Let_def)

lemma parse_features_Some:
  "parse_features data = Some X \<Longrightarrow>
     X = [parseFloat (data ''Bedrooms''), parseFloat (data ''Square Footage''),
          parseFloat (covA data), parseFloat (data ''Age of Home'')]"
  by (auto simp: parse_features_def Let_def split: if_splits)

lemma optional_last_mono:
  "(c \<longrightarrow> d) \<Longrightarrow> set (xs @ (if c then [z] else [])) \<subseteq> set (xs @ (if d then [z] else []))"
  by auto

text \<open>
  C2, as the claim states it, fails: a request with no \<^verbatim>\<open>Bedrooms\<close> key and with
  \<^verbatim>\<open>Coverage A: 0\<close> misses one required key only, but the message names two fields.
\<close>

theorem missing_fields_counterexample:
  "fst (predict_handler (sample_files None) initial no_bedrooms_body)
     = Error 400 ''Missing fields: Bedrooms, Coverage A (or Property Value)'' \<and>
   absent_keys no_bedrooms_body = [''Bedrooms'']"
proof -
  have "missing_fields no_bedrooms_body = [''Bedrooms'', ''Coverage A (or Property Value)'']"
    by (simp add: validation_defs no_bedrooms_body_def)
  then have "fst (predict_handler (sample_files None) initial no_bedrooms_body)
     = Error 400 ''Missing fields: Bedrooms, Coverage A (or Property Value)''"
    by (simp add: handler_response [OF sample_available(1,2)])
  moreover have "absent_keys no_bedrooms_body = [''Bedrooms'']"
    by (simp add: absent_keys_def no_bedrooms_body_def)
  ultimately show ?thesis by simp
qed

text \<open>
  C2, amended: with model and scaler in place, the fields reported missing are the absent
  base keys, in the order \<^verbatim>\<open>Bedrooms\<close>, \<^verbatim>\<open>Square Footage\<close>, \<^verbatim>\<open>Age of Home\<close>, followed by the
  coverage when \<^verbatim>\<open>Property Value\<close> is absent and \<^verbatim>\<open>Coverage A\<close> is absent or falsy. Every
  absent key is among them. Whenever that list is not empty the response is 400 with
  \<^verbatim>\<open>Missing fields: \<close> followed by all of the list joined by \<^verbatim>\<open>, \<close>, and the model is not
  called.
\<close>

theorem missing_fields_response:
  assumes "available (model s) (model_file fs) = Some m"
    and "available (scaler s) (scaler_file fs) = Some sc"
  shows
    "missing_fields data =
       filter (\<lambda>k. data k = None) [''Bedrooms'', ''Square Footage'', ''Age of Home''] @
       (if data ''Property Value'' = None \<and>
           (case data ''Coverage A'' of None \<Rightarrow> True | Some v \<Rightarrow> \<not> truthy v)
        then [''Coverage A (or Property Value)''] else []) \<and>
     set (absent_keys data) \<subseteq> set (missing_fields data) \<and>
     (missing_fields data \<noteq> [] \<longrightarrow>
        fst (predict_handler fs s data)
          = Error 400 (''Missing fields: '' @ join '', '' (missing_fields data)) \<and>
        predictions (snd (predict_handler fs s data)) = predictions s)"
proof -
  have shape: "missing_fields data =
       filter (\<lambda>k. data k = None) [''Bedrooms'', ''Square Footage'', ''Age of Home''] @
       (if data ''Property Value'' = None \<and>
           (case data ''Coverage A'' of None \<Rightarrow> True | Some v \<Rightarrow> \<not> truthy v)
        then [''Coverage A (or Property Value)''] else [])"
    unfolding missing_fields_def Let_def covA_None_iff by simp
  have "set (absent_keys data) \<subseteq> set (missing_fields data)"
    unfolding shape absent_keys_def by (rule optional_last_mono) simp
  with shape handler_response [OF assms, of data] handler_predictions [OF assms, of data]
  show ?thesis by simp
qed

text \<open>C2 on the scenario request without \<^verbatim>\<open>Age of Home\<close> (end-to-end scenario 2).\<close>

theorem missing_fields_response_witness:
  "fst (predict_handler (sample_files None) initial no_age_body)
     = Error 400 ''Missing fields: Age of Home'' \<and>
   predictions (snd (predict_handler (sample_files None) initial no_age_body)) = []"
proof -
  have m: "missing_fields no_age_body = [''Age of Home'']"
    by (simp add: validation_defs no_age_body_def)
  have p: "predictions initial = []"
    by (simp add: predictions_def initial_def)
  from missing_fields_response [OF sample_available(1,2), where data = no_age_body] m p
  show ?thesis by simp
qed

text \<open>
  C3, as the claim states it, fails: for \<^verbatim>\<open>Bedrooms: "three"\<close> the error message is a fixed
  text in which the name of the field does not occur, and the non-numeric value
  \<^verbatim>\<open>Bedrooms: "3abc"\<close> is not rejected but read as \<open>3\<close> and predicted on.
\<close>

theorem invalid_types_counterexample:
  "fst (predict_handler (sample_files None) initial word_bedrooms_body)
     = Error 400 ''Invalid input types: Invalid number format'' \<and>
   \<not> sublist ''Bedrooms'' ''Invalid input types: Invalid number format'' \<and>
   fst (predict_handler (sample_files None) initial prefix_bedrooms_body) = Premium (Fin 4)"
proof -
  have "missing_fields word_bedrooms_body = []" "parse_features word_bedrooms_body = None"
    "parse_message word_bedrooms_body = ''Invalid number format''"
    by (simp_all add: validation_defs word_bedrooms_body_def parse_string_defs)
  then have 1: "fst (predict_handler (sample_files None) initial word_bedrooms_body)
     = Error 400 ''Invalid input types: Invalid number format''"
    by (simp add: handler_response [OF sample_available(1,2)])
  have 2: "\<not> sublist ''Bedrooms'' ''Invalid input types: Invalid number format''"
    by (simp add: sublist_Cons_right)
  have "missing_fields prefix_bedrooms_body = []"
    "parse_features prefix_bedrooms_body = Some [Fin 3, Fin 2000, Fin 250000, Fin 15]"
    by (simp_all add: validation_defs prefix_bedrooms_body_def parse_string_defs)
  then have 3: "fst (predict_handler (sample_files None) initial prefix_bedrooms_body)
     = Premium (Fin 4)"
    by (simp add: handler_response [OF sample_available(1,2)] sample_available calibrate_cases
        scenario_scaled sample_model_def round2_def)
  from 1 2 3 show ?thesis by simp
qed

text \<open>
  C3, amended: with model and scaler in place and no field reported missing, the request
  is rejected exactly when \<^verbatim>\<open>parseFloat\<close> of the \<^verbatim>\<open>Bedrooms\<close>, \<^verbatim>\<open>Square Footage\<close>, selected
  coverage or \<^verbatim>\<open>Age of Home\<close> value throws or is \<open>NaN\<close>. The response is then a 400 error
  whose message is \<^verbatim>\<open>Invalid input types: \<close> followed by a fixed detail that names no
  field: the text of the \<^verbatim>\<open>TypeError\<close> when a conversion throws, else
  \<^verbatim>\<open>Invalid number format\<close>; and the model is not called. Every other such request,
  a value with a numeric prefix included, is predicted on, with the four numbers that
  \<^verbatim>\<open>parseFloat\<close> returns.
\<close>

theorem invalid_types_response:
  assumes "available (model s) (model_file fs) = Some m"
    and "available (scaler s) (scaler_file fs) = Some sc"
    and "missing_fields data = []"
  shows
    "(parseFloat_throws (data ''Bedrooms'') \<or> parseFloat_throws (data ''Square Footage'') \<or>
      parseFloat_throws (covA data) \<or> parseFloat_throws (data ''Age of Home'') \<longrightarrow>
        fst (predict_handler fs s data)
          = Error 400 ''Invalid input types: Cannot convert object to primitive value'' \<and>
        predictions (snd (predict_handler fs s data)) = predictions s) \<and>
     (\<not> (parseFloat_throws (data ''Bedrooms'') \<or> parseFloat_throws (data ''Square Footage'') \<or>
         parseFloat_throws (covA data) \<or> parseFloat_throws (data ''Age of Home'')) \<and>
      (js_isNaN (parseFloat (data ''Bedrooms'')) \<or> js_isNaN (parseFloat (data ''Square Footage'')) \<or>
       js_isNaN (parseFloat (covA data)) \<or> js_isNaN (parseFloat (data ''Age of Home''))) \<longrightarrow>
        fst (predict_handler fs s data) = Error 400 ''Invalid input types: Invalid number format'' \<and>
        predictions (snd (predict_handler fs s data)) = predictions s) \<and>
     (\<not> (parseFloat_throws (data ''Bedrooms'') \<or> parseFloat_throws (data ''Square Footage'') \<or>
         parseFloat_throws (covA data) \<or> parseFloat_throws (data ''Age of Home'')) \<and>
      \<not> (js_isNaN (parseFloat (data ''Bedrooms'')) \<or> js_isNaN (parseFloat (data ''Square Footage'')) \<or>
         js_isNaN (parseFloat (covA data)) \<or> js_isNaN (parseFloat (data ''Age of Home''))) \<longrightarrow>
        fst (predict_handler fs s data)
          = Premium (round2 (calibrate (available (calib s) (calib_file fs))
              (m (scaleFeatures [parseFloat (data ''Bedrooms''), parseFloat (data ''Square Footage''),
                                 parseFloat (covA data), parseFloat (data ''Age of Home'')] sc)))))"
proof -
  note r = handler_response [OF assms(1,2), of data]
  note p = handler_predictions [OF assms(1,2), of data]
  have thr: "parse_throws data \<Longrightarrow> parse_features data = None \<and>
      parse_message data = ''Cannot convert object to primitive value''"
    by (simp add: parse_features_def parse_message_def type_error_message_def)
  have nan: "\<not> parse_throws data \<Longrightarrow>
      js_isNaN (parseFloat (data ''Bedrooms'')) \<or> js_isNaN (parseFloat (data ''Square Footage'')) \<or>
      js_isNaN (parseFloat (covA data)) \<or> js_isNaN (parseFloat (data ''Age of Home'')) \<Longrightarrow>
      parse_features data = None \<and> parse_message data = ''Invalid number format''"
    by (simp add: parse_features_def parse_message_def Let_def)
  have ok: "\<not> parse_throws data \<Longrightarrow>
      \<not> (js_isNaN (parseFloat (data ''Bedrooms'')) \<or> js_isNaN (parseFloat (data ''Square Footage'')) \<or>
         js_isNaN (parseFloat (covA data)) \<or> js_isNaN (parseFloat (data ''Age of Home''))) \<Longrightarrow>
      parse_features data = Some [parseFloat (data ''Bedrooms''), parseFloat (data ''Square Footage''),
          parseFloat (covA data), parseFloat (data ''Age of Home'')]"
    by (simp add: parse_features_def Let_def)
  show ?thesis
    unfolding parse_throws_def [symmetric]
    using r p assms(3) thr nan ok by (cases "parse_throws data") auto
qed

text \<open>
  C3 on the scenario request with \<^verbatim>\<open>Bedrooms: "three"\<close> (end-to-end scenario 4), and with
  \<^verbatim>\<open>Bedrooms: {"toString": 1}\<close>.
\<close>

theorem invalid_types_response_witness:
  "fst (predict_handler (sample_files None) initial word_bedrooms_body)
     = Error 400 ''Invalid input types: Invalid number format'' \<and>
   predictions (snd (predict_handler (sample_files None) initial word_bedrooms_body)) = [] \<and>
   fst (predict_handler (sample_files None) initial object_bedrooms_body)
     = Error 400 ''Invalid input types: Cannot convert object to primitive value''"
proof -
  have m: "missing_fields word_bedrooms_body = []" "missing_fields object_bedrooms_body = []"
    by (simp_all add: validation_defs word_bedrooms_body_def object_bedrooms_body_def)
  have n: "js_isNaN (parseFloat (word_bedrooms_body ''Bedrooms''))"
    "\<not> parseFloat_throws (word_bedrooms_body ''Bedrooms'')"
    "\<not> parseFloat_throws (word_bedrooms_body ''Square Footage'')"
    "\<not> parseFloat_throws (covA word_bedrooms_body)"
    "\<not> parseFloat_throws (word_bedrooms_body ''Age of Home'')"
    by (simp_all add: word_bedrooms_body_def parseFloat_def parseFloat_throws_def covA_def js_or_def
        parse_string_defs)
  have t: "parseFloat_throws (object_bedrooms_body ''Bedrooms'')"
    by (simp add: object_bedrooms_body_def parseFloat_throws_def)
  have p: "predictions initial = []"
    by (simp add: predictions_def initial_def)
  from invalid_types_response [OF sample_available(1,2) m(1)] n p
  have "fst (predict_handler (sample_files None) initial word_bedrooms_body)
     = Error 400 ''Invalid input types: Invalid number format'' \<and>
   predictions (snd (predict_handler (sample_files None) initial word_bedrooms_body)) = []"
    by simp
  moreover from invalid_types_response [OF sample_available(1,2) m(2)] t
  have "fst (predict_handler (sample_files None) initial object_bedrooms_body)
     = Error 400 ''Invalid input types: Cannot convert object to primitive value''"
    by blast
  ultimately show ?thesis by simp
qed

section \<open>Requests that overlap\<close>

lemma resume_alone:
  "(case_prod (resume fs data) ^^ 7) (s, arrive_stage s)
     = (snd (predict_handler fs s data), Responded (fst (predict_handler fs s data)))"
  unfolding arrive_stage_def predict_handler_def loader_defs
  by (cases "model s"; cases "model_file fs"; cases "scaler s"; cases "scaler_file fs";
      cases "calib s"; cases "calib_file fs"; cases "parse_features data")
     (simp_all add: eval_nat_numeral Let_def)


lemma run_Nil [simp]: "run [] c = c"
  by (simp add: run_def)

lemma run_Cons [simp]: "run ((fs, act) # rest) c = run rest (exec fs act c)"
  by (simp add: run_def)

lemma run_append: "run (xs @ ys) c = run ys (run xs c)"
  by (simp add: run_def)

lemma exec_last:
  "exec fs (Resume (length ts)) \<lparr>server = s, tasks = ts @ [\<lparr>body = d, stage = st\<rparr>]\<rparr>
     = \<lparr>server = fst (resume fs d s st), tasks = ts @ [\<lparr>body = d, stage = snd (resume fs d s st)\<rparr>]\<rparr>"
  by (simp add: exec_def split_beta)

lemma run_last:
  "run (replicate k (fs, Resume (length ts))) \<lparr>server = s, tasks = ts @ [\<lparr>body = d, stage = st\<rparr>]\<rparr>
     = \<lparr>server = fst ((case_prod (resume fs d) ^^ k) (s, st)),
        tasks = ts @ [\<lparr>body = d, stage = snd ((case_prod (resume fs d) ^^ k) (s, st))\<rparr>]\<rparr>"
proof (induction k arbitrary: s st)
  case 0
  then show ?case by simp
next
  case (Suc k)
  show ?case
    by (simp only: replicate_Suc run_Cons exec_last Suc.IH funpow_Suc_right o_apply)
       (simp add: case_prod_unfold)
qed

lemma run_alone:
  "run (replicate 7 (fs, Resume (length (tasks c)))) (exec fs (Arrive data) c)
     = \<lparr>server = snd (predict_handler fs (server c) data),
        tasks = tasks c @ [\<lparr>body = data, stage = Responded (fst (predict_handler fs (server c) data))\<rparr>]\<rparr>"
proof -
  have "exec fs (Arrive data) c
      = \<lparr>server = server c, tasks = tasks c @ [\<lparr>body = data, stage = arrive_stage (server c)\<rparr>]\<rparr>"
    by (simp add: exec_def)
  then show ?thesis
    by (simp only: run_last resume_alone fst_conv snd_conv)
qed

lemma run_sequential:
  "run (sequential (length (tasks c)) reqs) c
     = \<lparr>server = snd (serve (server c) reqs),
        tasks = tasks c @ map (\<lambda>((fs, data), r). \<lparr>body = data, stage = Responded r\<rparr>)
                           (zip reqs (fst (serve (server c) reqs)))\<rparr>"
proof (induction reqs arbitrary: c)
  case Nil
  then show ?case by simp
next
  case (Cons req reqs)
  obtain fs data where req: "req = (fs, data)" by (cases req)
  let ?c1 = "\<lparr>server = snd (predict_handler fs (server c) data),
        tasks = tasks c @ [\<lparr>body = data, stage = Responded (fst (predict_handler fs (server c) data))\<rparr>]\<rparr>"
  have len: "Suc (length (tasks c)) = length (tasks ?c1)" by simp
  have "run (sequential (length (tasks c)) (req # reqs)) c
      = run (sequential (Suc (length (tasks c))) reqs) ?c1"
    by (simp only: req sequential.simps run_Cons run_append run_alone)
  also have "\<dots> = \<lparr>server = snd (serve (server ?c1) reqs),
        tasks = tasks ?c1 @ map (\<lambda>((fs, data), r). \<lparr>body = data, stage = Responded r\<rparr>)
                           (zip reqs (fst (serve (server ?c1) reqs)))\<rparr>"
    unfolding len by (rule Cons.IH)
  finally show ?case
    by (simp add: req split_beta)
qed


lemma resume_fields:
  "st \<noteq> AwaitModel \<Longrightarrow> model (fst (resume fs d s st)) = model s"
  "st \<noteq> AwaitScaler \<Longrightarrow> scaler (fst (resume fs d s st)) = scaler s"
  "st \<noteq> AwaitCalib \<Longrightarrow> calib (fst (resume fs d s st)) = calib s"
  by (cases st; simp add: Let_def split: option.splits)+

lemma resume_reads:
  "\<not> awaiting x st \<Longrightarrow> reads x (fst (resume fs d s st)) = reads x s"
  by (cases st; cases x; simp add: reads_def Let_def split: option.splits)

lemma resume_read:
  "awaiting x st \<Longrightarrow>
     (\<exists>e. reads x (fst (resume fs d s st)) = reads x s @ [e]) \<and>
     finished_loader x (snd (resume fs d s st))"
  by (cases st; cases x; simp add: reads_def Let_def internal_error_def split: option.splits)

lemma resume_finished:
  "finished_loader x st \<Longrightarrow> finished_loader x (snd (resume fs d s st))"
  by (cases st; cases x; simp add: Let_def internal_error_def split: option.splits)

lemma resume_no_new_read:
  "cached x s \<Longrightarrow> \<not> awaiting x st \<Longrightarrow> \<not> awaiting x (snd (resume fs d s st))"
  by (cases st; cases x; simp add: Let_def internal_error_def split: option.splits)

lemma resume_cached:
  "\<not> awaiting x st \<Longrightarrow> cached x (fst (resume fs d s st)) = cached x s"
  by (cases x) (auto simp: resume_fields)

lemma resume_stays_cached:
  "x \<noteq> Calib \<Longrightarrow> cached x s \<Longrightarrow> cached x (fst (resume fs d s st))"
  by (cases st; cases x; auto simp: Let_def split: option.splits)


lemma filter_update_length:
  "i < length xs \<Longrightarrow>
   length (filter P (xs[i := y])) + (if P (xs ! i) then 1 else 0)
     = length (filter P xs) + (if P y then 1 else 0)"
proof (induction xs arbitrary: i)
  case Nil
  then show ?case by simp
next
  case (Cons x xs)
  then show ?case by (cases i) auto
qed

lemma in_flight_update:
  "\<not> in_flight x c \<Longrightarrow> \<not> awaiting x st \<Longrightarrow>
   \<not> in_flight x \<lparr>server = s', tasks = (tasks c)[i := (tasks c ! i)\<lparr>stage := st\<rparr>]\<rparr>"
  by (auto simp: in_flight_def list_ex_iff dest!: set_update_subset_insert [THEN subsetD])

lemma settled_exec:
  assumes "settled x c"
  shows "settled x (exec fs act c) \<and>
    reads x (server (exec fs act c)) = reads x (server c) \<and>
    (x = Model \<longrightarrow> model (server (exec fs act c)) = model (server c)) \<and>
    (x = Scaler \<longrightarrow> scaler (server (exec fs act c)) = scaler (server c)) \<and>
    (x = Calib \<longrightarrow> calib (server (exec fs act c)) = calib (server c))"
proof -
  from assms have c: "cached x (server c)" and f: "\<not> in_flight x c"
    by (simp_all add: settled_def)
  show ?thesis
  proof (cases act)
    case (Arrive data)
    have "\<not> awaiting x (arrive_stage (server c))"
      using c by (cases x) (auto simp: arrive_stage_def)
    then have "\<not> in_flight x (exec fs act c)"
      using f by (simp add: Arrive exec_def in_flight_def)
    then show ?thesis
      using c by (simp add: Arrive exec_def settled_def)
  next
    case (Resume i)
    show ?thesis
    proof (cases "i < length (tasks c)")
      case False
      then show ?thesis
        using assms by (simp add: Resume exec_def)
    next
      case True
      let ?t = "tasks c ! i"
      let ?r = "resume fs (body ?t) (server c) (stage ?t)"
      have na: "\<not> awaiting x (stage ?t)"
        using f True by (auto simp: in_flight_def list_ex_iff)
      have e: "exec fs act c = \<lparr>server = fst ?r, tasks = (tasks c)[i := ?t\<lparr>stage := snd ?r\<rparr>]\<rparr>"
        using True by (simp add: Resume exec_def split_beta)
      have "\<not> awaiting x (snd ?r)"
        using c na by (rule resume_no_new_read)
      with f have "\<not> in_flight x (exec fs act c)"
        unfolding e by (rule in_flight_update)
      moreover have "cached x (server (exec fs act c))"
        using c by (simp add: e resume_cached [OF na])
      ultimately have 1: "settled x (exec fs act c)" by (simp add: settled_def)
      have 2: "reads x (server (exec fs act c)) = reads x (server c)"
        by (simp add: e resume_reads [OF na])
      have 3: "x = Model \<longrightarrow> model (server (exec fs act c)) = model (server c)"
        "x = Scaler \<longrightarrow> scaler (server (exec fs act c)) = scaler (server c)"
        "x = Calib \<longrightarrow> calib (server (exec fs act c)) = calib (server c)"
        using na by (auto simp: e resume_fields)
      from 1 2 3 show ?thesis by blast
    qed
  qed
qed

lemma settled_run:
  "settled x c \<Longrightarrow>
     settled x (run sched c) \<and> reads x (server (run sched c)) = reads x (server c) \<and>
     (x = Model \<longrightarrow> model (server (run sched c)) = model (server c)) \<and>
     (x = Scaler \<longrightarrow> scaler (server (run sched c)) = scaler (server c)) \<and>
     (x = Calib \<longrightarrow> calib (server (run sched c)) = calib (server c))"
proof (induction sched arbitrary: c)
  case Nil
  then show ?case by simp
next
  case (Cons a sched)
  obtain fs act where a: "a = (fs, act)" by (cases a)
  note e = settled_exec [OF Cons.prems, of fs act]
  from e have "settled x (exec fs act c)" by blast
  from Cons.IH [OF this] e show ?case
    by (auto simp: a)
qed

lemma stays_cached_exec:
  "x \<noteq> Calib \<Longrightarrow> cached x (server c) \<Longrightarrow> cached x (server (exec fs act c))"
  by (cases act) (auto simp: exec_def split_beta resume_stays_cached simp del: cached.simps)

lemma stays_cached_run:
  "x \<noteq> Calib \<Longrightarrow> cached x (server c) \<Longrightarrow> cached x (server (run sched c))"
proof (induction sched arbitrary: c)
  case Nil
  then show ?case by simp
next
  case (Cons a sched)
  obtain fs act where a: "a = (fs, act)" by (cases a)
  from Cons.IH [OF Cons.prems(1) stays_cached_exec [OF Cons.prems, of fs act]] show ?case
    by (simp add: a)
qed

lemma reads_bound_exec:
  assumes "length (reads x (server c)) \<le> finished x c"
  shows "length (reads x (server (exec fs act c))) \<le> finished x (exec fs act c)"
proof (cases act)
  case (Arrive data)
  with assms show ?thesis by (simp add: exec_def finished_def)
next
  case (Resume i)
  show ?thesis
  proof (cases "i < length (tasks c)")
    case False
    with assms show ?thesis by (simp add: Resume exec_def)
  next
    case True
    let ?t = "tasks c ! i"
    let ?r = "resume fs (body ?t) (server c) (stage ?t)"
    let ?P = "\<lambda>t. finished_loader x (stage t)"
    have e: "exec fs act c = \<lparr>server = fst ?r, tasks = (tasks c)[i := ?t\<lparr>stage := snd ?r\<rparr>]\<rparr>"
      using True by (simp add: Resume exec_def split_beta)
    from filter_update_length [OF True, of ?P "?t\<lparr>stage := snd ?r\<rparr>"]
    have cnt: "finished x (exec fs act c) + (if finished_loader x (stage ?t) then 1 else 0)
        = finished x c + (if finished_loader x (snd ?r) then 1 else 0)"
      by (simp add: e finished_def)
    show ?thesis
    proof (cases "awaiting x (stage ?t)")
      case True
      from resume_read [OF True, of fs "body ?t" "server c"]
      have "length (reads x (fst ?r)) = Suc (length (reads x (server c)))"
        "finished_loader x (snd ?r)" by auto
      moreover have "\<not> finished_loader x (stage ?t)"
        using True by (cases x) auto
      ultimately show ?thesis using cnt assms by (simp add: e)
    next
      case False
      have "reads x (fst ?r) = reads x (server c)"
        using False by (rule resume_reads)
      moreover have "finished_loader x (stage ?t) \<longrightarrow> finished_loader x (snd ?r)"
        using resume_finished by blast
      ultimately show ?thesis using cnt assms by (auto simp: e split: if_splits)
    qed
  qed
qed

lemma reads_bound_run:
  "length (reads x (server c)) \<le> finished x c \<Longrightarrow>
   length (reads x (server (run sched c))) \<le> finished x (run sched c)"
proof (induction sched arbitrary: c)
  case Nil
  then show ?case by simp
next
  case (Cons a sched)
  obtain fs act where a: "a = (fs, act)" by (cases a)
  from Cons.IH [OF reads_bound_exec [OF Cons.prems, of fs act]] show ?case
    by (simp add: a)
qed

lemma finished_le_tasks: "finished x c \<le> length (tasks c)"
  by (simp add: finished_def)

lemma read_step_cached:
  "read_step x s s' \<Longrightarrow> cached x s \<Longrightarrow> cached x s' \<and> reads x s' = reads x s"
  by (auto simp: read_step_def)

lemma overlap_run:
  "run overlap_schedule start =
     \<lparr>server = \<lparr>model = Some sample_model, scaler = Some sample_scaler, calib = None,
        log = [Loaded Model, Loaded Model, Loaded Scaler, Loaded Scaler, ReadFailed Calib,
               ReadFailed Calib, Predicted [Fin 1, Fin 1, Fin 1, Fin 1],
               Predicted [Fin 1, Fin 1, Fin 1, Fin 1]]\<rparr>,
      tasks = [\<lparr>body = scenario_body, stage = Responded (Premium (Fin 4))\<rparr>,
               \<lparr>body = scenario_body, stage = Responded (Premium (Fin 4))\<rparr>]\<rparr>"
  by (simp add: overlap_schedule_def run_def exec_def start_def initial_def arrive_stage_def
      sample_files_def scenario_valid scenario_scaled calibrate_cases sample_model_def round2_def Let_def)

lemma responded_final_exec:
  "i < length (tasks c) \<Longrightarrow> stage (tasks c ! i) = Responded r \<Longrightarrow>
   i < length (tasks (exec fs act c)) \<and> stage (tasks (exec fs act c) ! i) = Responded r"
  by (cases act) (auto simp: exec_def split_beta nth_append nth_list_update)

lemma responded_final:
  "i < length (tasks c) \<Longrightarrow> stage (tasks c ! i) = Responded r \<Longrightarrow>
   i < length (tasks (run sched c)) \<and> stage (tasks (run sched c) ! i) = Responded r"
proof (induction sched arbitrary: c)
  case Nil
  then show ?case by simp
next
  case (Cons a sched)
  obtain fs act where a: "a = (fs, act)" by (cases a)
  from responded_final_exec [OF Cons.prems, of fs act] Cons.IH show ?case
    by (simp add: a)
qed

lemma failed_read_exec:
  assumes "i < length (tasks c)"
  shows "stage (tasks c ! i) = AwaitModel \<Longrightarrow> model_file fs = None \<Longrightarrow>
           stage (tasks (exec fs (Resume i) c) ! i) = Responded internal_error"
    and "stage (tasks c ! i) = AwaitScaler \<Longrightarrow> scaler_file fs = None \<Longrightarrow>
           stage (tasks (exec fs (Resume i) c) ! i) = Responded internal_error"
    and "stage (tasks c ! i) = AwaitCalib \<Longrightarrow> calib_file fs = None \<Longrightarrow>
           stage (tasks (exec fs (Resume i) c) ! i) = AfterCalib \<and>
           calib (server (exec fs (Resume i) c)) = None"
  using assms by (simp_all add: exec_def)

section \<open>Loading and caching of the artifacts\<close>

text \<open>
  C8, as the claim states it, fails twice. Two requests that arrive one right after the
  other both find \<^verbatim>\<open>_model\<close> empty and both load the model, and then the scaler: each
  artifact is loaded twice in one process. And with requests handled one after another,
  when the calibration file is absent at the first request and present at the second, the
  first request reads it without success, the second reads it again and loads it, and
  serves the calibrated value: the file is read by a later request, and the load does not
  happen at the first use.
\<close>

theorem artifact_loading_counterexample:
  "log (server (run overlap_schedule start))
     = [Loaded Model, Loaded Model, Loaded Scaler, Loaded Scaler, ReadFailed Calib,
        ReadFailed Calib, Predicted [Fin 1, Fin 1, Fin 1, Fin 1],
        Predicted [Fin 1, Fin 1, Fin 1, Fin 1]] \<and>
   map stage (tasks (run overlap_schedule start))
     = [Responded (Premium (Fin 4)), Responded (Premium (Fin 4))] \<and>
   fst (serve initial [(sample_files None, scenario_body),
                       (sample_files (Some sample_calib), scenario_body)])
     = [Premium (Fin 4), Premium (Fin 0)] \<and>
   log (snd (serve initial [(sample_files None, scenario_body),
                            (sample_files (Some sample_calib), scenario_body)]))
     = [Loaded Model, Loaded Scaler, ReadFailed Calib, Predicted [Fin 1, Fin 1, Fin 1, Fin 1],
        Loaded Calib, Predicted [Fin 1, Fin 1, Fin 1, Fin 1]]"
proof -
  let ?s1 = "\<lparr>model = Some sample_model, scaler = Some sample_scaler, calib = None,
      log = [Loaded Model, Loaded Scaler, ReadFailed Calib, Predicted [Fin 1, Fin 1, Fin 1, Fin 1]]\<rparr>"
  let ?s2 = "\<lparr>model = Some sample_model, scaler = Some sample_scaler, calib = Some sample_calib,
      log = [Loaded Model, Loaded Scaler, ReadFailed Calib, Predicted [Fin 1, Fin 1, Fin 1, Fin 1],
        Loaded Calib, Predicted [Fin 1, Fin 1, Fin 1, Fin 1]]\<rparr>"
  have ab: "sample_calib ''a'' = Some (JsonNum (- 1))" "sample_calib ''b'' = Some (JsonNum 1)"
    by (simp_all add: sample_calib_def)
  have 1: "predict_handler (sample_files None) initial scenario_body = (Premium (Fin 4), ?s1)"
    by (simp add: predict_handler_def loader_defs sample_files_def initial_def scenario_valid
        scenario_scaled calibrate_cases sample_model_def round2_def Let_def)
  have 2: "predict_handler (sample_files (Some sample_calib)) ?s1 scenario_body
      = (Premium (Fin 0), ?s2)"
    by (simp add: predict_handler_def loader_defs sample_files_def scenario_valid
        scenario_scaled calibrate_cases(2) [OF ab] sample_model_def round2_def Let_def)
  show ?thesis by (simp add: 1 2 overlap_run)
qed

text \<open>
  C8, amended. Each artifact is loaded when a request finds it not cached, and cached
  when the load succeeds. In every interleaving of requests, from the start of the
  process: the file of an artifact is read at most once by each request that is past
  its loader, and not by the others. Once an artifact is cached and no read of it is in
  progress, it stays so whatever happens next: it keeps its value and its file is never
  read again. The model and the scaler, once cached, are never dropped. A request whose
  read of the model or of the scaler fails is answered with the 500 error; a request
  whose read of the calibration fails goes on, with nothing cached; and a response once
  given does not change. Requests handled one after another are one of the
  interleavings; for them the reads of each artifact are some failed reads followed by at
  most one successful load, and a request that finds an artifact cached keeps it and
  does not read its file. When the model is neither cached nor readable, or the model is
  there and the scaler is neither cached nor readable, such a request is answered with the
  500 error. When model and scaler are there and the calibration is neither cached nor
  readable, the response is never the 500 error and a request that passes validation is
  served the uncalibrated prediction; the failed read is not cached, so the next request
  reads the file again.
\<close>

theorem artifact_loading:
  "length (reads x (server (run sched start))) \<le> finished x (run sched start) \<and>
   finished x (run sched start) \<le> length (tasks (run sched start)) \<and>
   (settled x c \<longrightarrow>
      settled x (run sched c) \<and> reads x (server (run sched c)) = reads x (server c) \<and>
      (x = Model \<longrightarrow> model (server (run sched c)) = model (server c)) \<and>
      (x = Scaler \<longrightarrow> scaler (server (run sched c)) = scaler (server c)) \<and>
      (x = Calib \<longrightarrow> calib (server (run sched c)) = calib (server c))) \<and>
   (x \<noteq> Calib \<and> cached x (server c) \<longrightarrow> cached x (server (run sched c))) \<and>
   (i < length (tasks c) \<and> stage (tasks c ! i) = AwaitModel \<and> model_file fs = None \<longrightarrow>
      stage (tasks (exec fs (Resume i) c) ! i) = Responded internal_error) \<and>
   (i < length (tasks c) \<and> stage (tasks c ! i) = AwaitScaler \<and> scaler_file fs = None \<longrightarrow>
      stage (tasks (exec fs (Resume i) c) ! i) = Responded internal_error) \<and>
   (i < length (tasks c) \<and> stage (tasks c ! i) = AwaitCalib \<and> calib_file fs = None \<longrightarrow>
      stage (tasks (exec fs (Resume i) c) ! i) = AfterCalib \<and>
      calib (server (exec fs (Resume i) c)) = None) \<and>
   (i < length (tasks c) \<and> stage (tasks c ! i) = Responded r \<longrightarrow>
      stage (tasks (run sched c) ! i) = Responded r) \<and>
   run (sequential 0 reqs) start
     = \<lparr>server = snd (serve initial reqs),
        tasks = map (\<lambda>((fs, data), r). \<lparr>body = data, stage = Responded r\<rparr>)
                  (zip reqs (fst (serve initial reqs)))\<rparr> \<and>
   load_once x (snd (serve initial reqs)) \<and>
   count_list (log (snd (serve initial reqs))) (Loaded x) \<le> 1 \<and>
   (cached x s \<longrightarrow>
      cached x (snd (predict_handler fs s data)) \<and>
      reads x (snd (predict_handler fs s data)) = reads x s) \<and>
   (model s \<noteq> None \<longrightarrow> model (snd (predict_handler fs s data)) = model s) \<and>
   (scaler s \<noteq> None \<longrightarrow> scaler (snd (predict_handler fs s data)) = scaler s) \<and>
   (calib s \<noteq> None \<longrightarrow> calib (snd (predict_handler fs s data)) = calib s) \<and>
   (model s = None \<and> model_file fs = None \<longrightarrow>
      fst (predict_handler fs s data) = internal_error) \<and>
   (available (model s) (model_file fs) \<noteq> None \<and> scaler s = None \<and> scaler_file fs = None \<longrightarrow>
      fst (predict_handler fs s data) = internal_error) \<and>
   (available (model s) (model_file fs) = Some m \<and>
    available (scaler s) (scaler_file fs) = Some sc \<and> calib s = None \<and> calib_file fs = None \<longrightarrow>
      fst (predict_handler fs s data) \<noteq> internal_error \<and>
      (missing_fields data = [] \<and> parse_features data = Some X \<longrightarrow>
         fst (predict_handler fs s data) = Premium (round2 (m (scaleFeatures X sc)))) \<and>
      calib (snd (predict_handler fs s data)) = None \<and>
      reads Calib (snd (predict_handler fs s data)) = reads Calib s @ [ReadFailed Calib])"
proof -
  have "length (reads x (server start)) \<le> finished x start"
    by (simp add: start_def initial_def reads_def)
  then have a1: "length (reads x (server (run sched start))) \<le> finished x (run sched start)"
    by (rule reads_bound_run)
  note a2 = finished_le_tasks [of x "run sched start"]
  have a3: "settled x c \<longrightarrow>
      settled x (run sched c) \<and> reads x (server (run sched c)) = reads x (server c) \<and>
      (x = Model \<longrightarrow> model (server (run sched c)) = model (server c)) \<and>
      (x = Scaler \<longrightarrow> scaler (server (run sched c)) = scaler (server c)) \<and>
      (x = Calib \<longrightarrow> calib (server (run sched c)) = calib (server c))"
    using settled_run [of x c sched] by blast
  have a4: "x \<noteq> Calib \<and> cached x (server c) \<longrightarrow> cached x (server (run sched c))"
    using stays_cached_run [of x c sched] by blast
  have a5: "i < length (tasks c) \<and> stage (tasks c ! i) = AwaitModel \<and> model_file fs = None \<longrightarrow>
      stage (tasks (exec fs (Resume i) c) ! i) = Responded internal_error"
    "i < length (tasks c) \<and> stage (tasks c ! i) = AwaitScaler \<and> scaler_file fs = None \<longrightarrow>
      stage (tasks (exec fs (Resume i) c) ! i) = Responded internal_error"
    "i < length (tasks c) \<and> stage (tasks c ! i) = AwaitCalib \<and> calib_file fs = None \<longrightarrow>
      stage (tasks (exec fs (Resume i) c) ! i) = AfterCalib \<and>
      calib (server (exec fs (Resume i) c)) = None"
    using failed_read_exec [of i c fs] by blast+
  have a6: "i < length (tasks c) \<and> stage (tasks c ! i) = Responded r \<longrightarrow>
      stage (tasks (run sched c) ! i) = Responded r"
    using responded_final [of i c r sched] by blast
  have a7: "run (sequential 0 reqs) start
     = \<lparr>server = snd (serve initial reqs),
        tasks = map (\<lambda>((fs, data), r). \<lparr>body = data, stage = Responded r\<rparr>)
                  (zip reqs (fst (serve initial reqs)))\<rparr>"
    using run_sequential [of start reqs] by (simp add: start_def)
  have 1: "load_once x (snd (serve initial reqs))"
    by (rule load_once_serve) (rule load_once_initial)
  note 0 = load_once_count [OF 1]
  have 2: "cached x s \<longrightarrow> cached x (snd (predict_handler fs s data)) \<and>
      reads x (snd (predict_handler fs s data)) = reads x s"
    using read_step_cached [OF handler_read_step] by blast
  have 3: "model s \<noteq> None \<longrightarrow> model (snd (predict_handler fs s data)) = model s"
    "scaler s \<noteq> None \<longrightarrow> scaler (snd (predict_handler fs s data)) = scaler s"
    "calib s \<noteq> None \<longrightarrow> calib (snd (predict_handler fs s data)) = calib s"
    using handler_fields [of fs s data] by (auto simp: available_def)
  have 4: "model s = None \<and> model_file fs = None \<longrightarrow>
      fst (predict_handler fs s data) = internal_error"
    using handler_fatal(1) [of s fs data] by (simp add: available_def)
  have 5: "available (model s) (model_file fs) \<noteq> None \<and> scaler s = None \<and> scaler_file fs = None
      \<longrightarrow> fst (predict_handler fs s data) = internal_error"
    using handler_fatal(2) [of s fs data] by (simp add: available_def)
  have 6: "fst (predict_handler fs s data) \<noteq> internal_error \<and>
      (missing_fields data = [] \<and> parse_features data = Some X \<longrightarrow>
         fst (predict_handler fs s data) = Premium (round2 (m (scaleFeatures X sc)))) \<and>
      calib (snd (predict_handler fs s data)) = None \<and>
      reads Calib (snd (predict_handler fs s data)) = reads Calib s @ [ReadFailed Calib]"
    if a: "available (model s) (model_file fs) = Some m"
      "available (scaler s) (scaler_file fs) = Some sc" "calib s = None" "calib_file fs = None"
  proof -
    have "calib (snd (predict_handler fs s data)) = None \<and>
      reads Calib (snd (predict_handler fs s data)) = reads Calib s @ [ReadFailed Calib]"
      using a by (intro handler_calib_retry) simp_all
    moreover have "available (calib s) (calib_file fs) = None"
      using a by (simp add: available_def)
    ultimately show ?thesis
      using handler_response [OF a(1,2), of data]
      by (auto simp: calibrate_cases internal_error_def split: option.splits if_splits)
  qed
  have seqpart: "load_once x (snd (serve initial reqs)) \<and>
   count_list (log (snd (serve initial reqs))) (Loaded x) \<le> 1 \<and>
   (cached x s \<longrightarrow>
      cached x (snd (predict_handler fs s data)) \<and>
      reads x (snd (predict_handler fs s data)) = reads x s) \<and>
   (model s \<noteq> None \<longrightarrow> model (snd (predict_handler fs s data)) = model s) \<and>
   (scaler s \<noteq> None \<longrightarrow> scaler (snd (predict_handler fs s data)) = scaler s) \<and>
   (calib s \<noteq> None \<longrightarrow> calib (snd (predict_handler fs s data)) = calib s) \<and>
   (model s = None \<and> model_file fs = None \<longrightarrow>
      fst (predict_handler fs s data) = internal_error) \<and>
   (available (model s) (model_file fs) \<noteq> None \<and> scaler s = None \<and> scaler_file fs = None \<longrightarrow>
      fst (predict_handler fs s data) = internal_error) \<and>
   (available (model s) (model_file fs) = Some m \<and>
    available (scaler s) (scaler_file fs) = Some sc \<and> calib s = None \<and> calib_file fs = None \<longrightarrow>
      fst (predict_handler fs s data) \<noteq> internal_error \<and>
      (missing_fields data = [] \<and> parse_features data = Some X \<longrightarrow>
         fst (predict_handler fs s data) = Premium (round2 (m (scaleFeatures X sc)))) \<and>
      calib (snd (predict_handler fs s data)) = None \<and>
      reads Calib (snd (predict_handler fs s data)) = reads Calib s @ [ReadFailed Calib])"
    using 0 1 2 3 4 5 6 by blast
  have runpart: "length (reads x (server (run sched start))) \<le> finished x (run sched start) \<and>
   finished x (run sched start) \<le> length (tasks (run sched start)) \<and>
   (settled x c \<longrightarrow>
      settled x (run sched c) \<and> reads x (server (run sched c)) = reads x (server c) \<and>
      (x = Model \<longrightarrow> model (server (run sched c)) = model (server c)) \<and>
      (x = Scaler \<longrightarrow> scaler (server (run sched c)) = scaler (server c)) \<and>
      (x = Calib \<longrightarrow> calib (server (run sched c)) = calib (server c))) \<and>
   (x \<noteq> Calib \<and> cached x (server c) \<longrightarrow> cached x (server (run sched c))) \<and>
   (i < length (tasks c) \<and> stage (tasks c ! i) = AwaitModel \<and> model_file fs = None \<longrightarrow>
      stage (tasks (exec fs (Resume i) c) ! i) = Responded internal_error) \<and>
   (i < length (tasks c) \<and> stage (tasks c ! i) = AwaitScaler \<and> scaler_file fs = None \<longrightarrow>
      stage (tasks (exec fs (Resume i) c) ! i) = Responded internal_error) \<and>
   (i < length (tasks c) \<and> stage (tasks c ! i) = AwaitCalib \<and> calib_file fs = None \<longrightarrow>
      stage (tasks (exec fs (Resume i) c) ! i) = AfterCalib \<and>
      calib (server (exec fs (Resume i) c)) = None) \<and>
   (i < length (tasks c) \<and> stage (tasks c ! i) = Responded r \<longrightarrow>
      stage (tasks (run sched c) ! i) = Responded r)"
    using a1 a2 a3 a4 a5 a6 by blast
  show ?thesis
    using conjI [OF runpart conjI [OF a7 seqpart]] unfolding conj_assoc .
qed

text \<open>
  C8 on the scenario request: two requests one after another, without and then with a
  calibration file; the two requests that overlap; and a request without a model file.
\<close>

theorem artifact_loading_witness:
  "load_once Calib (snd (serve initial [(sample_files None, scenario_body),
                                        (sample_files (Some sample_calib), scenario_body)])) \<and>
   fst (predict_handler (sample_files None) initial scenario_body) = Premium (Fin 4) \<and>
   reads Calib (snd (predict_handler (sample_files None) initial scenario_body)) = [ReadFailed Calib] \<and>
   fst (predict_handler \<lparr>model_file = None, scaler_file = Some sample_scaler, calib_file = None\<rparr>
          initial scenario_body) = internal_error \<and>
   settled Model (run overlap_schedule (run overlap_schedule start)) \<and>
   reads Model (server (run overlap_schedule (run overlap_schedule start)))
     = [Loaded Model, Loaded Model]"
proof -
  have raw: "round2 (sample_model (scaleFeatures [Fin 3, Fin 2000, Fin 250000, Fin 15] sample_scaler))
      = Fin 4"
    by (simp add: scenario_scaled sample_model_def round2_def)
  have none: "calib initial = None" "calib_file (sample_files None) = None"
    "reads Calib initial = []" "model initial = None"
    by (simp_all add: initial_def sample_files_def reads_def)
  from artifact_loading [where x = Calib and reqs = "[(sample_files None, scenario_body),
      (sample_files (Some sample_calib), scenario_body)]" and s = initial
      and fs = "sample_files None" and data = scenario_body and m = sample_model
      and sc = sample_scaler and X = "[Fin 3, Fin 2000, Fin 250000, Fin 15]"]
    sample_available(1,2) [of None] scenario_valid raw none
  have a: "load_once Calib (snd (serve initial [(sample_files None, scenario_body),
                                        (sample_files (Some sample_calib), scenario_body)])) \<and>
   fst (predict_handler (sample_files None) initial scenario_body) = Premium (Fin 4) \<and>
   reads Calib (snd (predict_handler (sample_files None) initial scenario_body)) = [ReadFailed Calib]"
    by simp
  from artifact_loading [where x = Calib and reqs = "[]" and s = initial
      and fs = "\<lparr>model_file = None, scaler_file = Some sample_scaler, calib_file = None\<rparr>"
      and data = scenario_body]
    none(4)
  have b: "fst (predict_handler \<lparr>model_file = None, scaler_file = Some sample_scaler, calib_file = None\<rparr>
          initial scenario_body) = internal_error"
    by simp
  have st: "settled Model (run overlap_schedule start)"
    "reads Model (server (run overlap_schedule start)) = [Loaded Model, Loaded Model]"
    by (simp_all add: overlap_run settled_def in_flight_def reads_def)
  from artifact_loading [where x = Model and c = "run overlap_schedule start"
      and sched = overlap_schedule] st
  have c: "settled Model (run overlap_schedule (run overlap_schedule start)) \<and>
   reads Model (server (run overlap_schedule (run overlap_schedule start)))
     = [Loaded Model, Loaded Model]"
    by simp
  from a b c show ?thesis by simp
qed

section \<open>The coverage fallback\<close>





section \<open>Preprocessing: the age of the home\<close>

lemma yes_no_fold_other:
  "k \<notin> set cols \<Longrightarrow>
   foldl (\<lambda>r col. case r col of Some (CStr s) \<Rightarrow> r(col \<mapsto> f s) | _ \<Rightarrow> r) r cols k = r k"
  by (induction cols arbitrary: r) (auto split: option.splits cell.splits)

lemma yes_no_age [simp]:
  "yes_no r ''Age of Home'' = r ''Age of Home''" "yes_no r ''Year Built'' = r ''Year Built''"
  unfolding yes_no_def by (rule yes_no_fold_other, simp)+

lemma drop_columns_age [simp]:
  "drop_columns r ''Age of Home'' = r ''Age of Home''"
  "drop_columns r ''Year Built'' = r ''Year Built''"
  by (simp_all add: drop_columns_def)

lemma preprocessData_nth:
  "i < length df \<Longrightarrow> preprocessData df ! i = yes_no (derive_age (drop_columns (df ! i)))"
  by (simp add: preprocessData_def)

text \<open>
  C9: for the record at any position of the input, if it has a \<^verbatim>\<open>Year Built\<close> field and no
  \<^verbatim>\<open>Age of Home\<close> field, then after preprocessing its \<^verbatim>\<open>Age of Home\<close> is \<open>2025\<close> minus
  the \<^verbatim>\<open>Year Built\<close> value (for a number \<open>y\<close>, the number \<open>2025 - y\<close>) and it has no
  \<^verbatim>\<open>Year Built\<close> field; if it has an \<^verbatim>\<open>Age of Home\<close> field, the age step leaves the record
  as it is, and after preprocessing both fields are what they were.
\<close>

theorem age_of_home_derived:
  assumes "i < length df"
  shows
    "((df ! i) ''Year Built'' = Some built \<and> (df ! i) ''Age of Home'' = None \<longrightarrow>
        (preprocessData df ! i) ''Age of Home''
          = Some (CNum (js_sub (Fin 2025) (cell_to_number built))) \<and>
        (preprocessData df ! i) ''Year Built'' = None \<and>
        (\<forall>y. built = CNum (Fin y) \<longrightarrow>
           (preprocessData df ! i) ''Age of Home'' = Some (CNum (Fin (2025 - y))))) \<and>
     ((df ! i) ''Age of Home'' \<noteq> None \<longrightarrow>
        derive_age (drop_columns (df ! i)) = drop_columns (df ! i) \<and>
        (preprocessData df ! i) ''Age of Home'' = (df ! i) ''Age of Home'' \<and>
        (preprocessData df ! i) ''Year Built'' = (df ! i) ''Year Built'')"
  using assms
  by (auto simp: preprocessData_nth derive_age_def split: option.splits)

text \<open>C9 on a record built in 1990 without an age, and on one that has an age of 7.\<close>

theorem age_of_home_derived_witness:
  "(preprocessData [map_of [(''Year Built'', CNum (Fin 1990)), (''ZIP Code'', CNum (Fin 90210))],
                    map_of [(''Year Built'', CNum (Fin 1990)), (''Age of Home'', CNum (Fin 7))]] ! 0)
      ''Age of Home'' = Some (CNum (Fin 35)) \<and>
   (preprocessData [map_of [(''Year Built'', CNum (Fin 1990)), (''ZIP Code'', CNum (Fin 90210))],
                    map_of [(''Year Built'', CNum (Fin 1990)), (''Age of Home'', CNum (Fin 7))]] ! 0)
      ''Year Built'' = None \<and>
   (preprocessData [map_of [(''Year Built'', CNum (Fin 1990)), (''ZIP Code'', CNum (Fin 90210))],
                    map_of [(''Year Built'', CNum (Fin 1990)), (''Age of Home'', CNum (Fin 7))]] ! Suc 0)
      ''Age of Home'' = Some (CNum (Fin 7)) \<and>
   (preprocessData [map_of [(''Year Built'', CNum (Fin 1990)), (''ZIP Code'', CNum (Fin 90210))],
                    map_of [(''Year Built'', CNum (Fin 1990)), (''Age of Home'', CNum (Fin 7))]] ! Suc 0)
      ''Year Built'' = Some (CNum (Fin 1990))"
proof -
  let ?r0 = "map_of [(''Year Built'', CNum (Fin 1990)), (''ZIP Code'', CNum (Fin 90210))]"
  let ?r1 = "map_of [(''Year Built'', CNum (Fin 1990)), (''Age of Home'', CNum (Fin 7))]"
  have l: "0 < length [?r0, ?r1]" "Suc 0 < length [?r0, ?r1]" by simp_all
  from age_of_home_derived [OF l(1), of "CNum (Fin 1990)"]
  have "(preprocessData [?r0, ?r1] ! 0) ''Age of Home'' = Some (CNum (Fin 35)) \<and>
        (preprocessData [?r0, ?r1] ! 0) ''Year Built'' = None"
    by simp
  moreover from age_of_home_derived [OF l(2), of "CNum (Fin 1990)"]
  have "(preprocessData [?r0, ?r1] ! Suc 0) ''Age of Home'' = Some (CNum (Fin 7)) \<and>
        (preprocessData [?r0, ?r1] ! Suc 0) ''Year Built'' = Some (CNum (Fin 1990))"
    by simp
  ultimately show ?thesis by simp
qed

section \<open>The train/test split\<close>


lemma js_rem_state:
  "0 \<le> z \<Longrightarrow> js_rem (Fin (of_int z)) (Fin 233280) = Fin (of_int (z mod 233280))"
proof -
  assume z: "0 \<le> z"
  have "\<lfloor>real_of_int z / real_of_int 233280\<rfloor> = z div 233280" by (rule floor_divide_of_int_eq)
  then have "js_rem (Fin (of_int z)) (Fin 233280) = Fin (of_int (z - 233280 * (z div 233280)))"
    using z by simp
  also have "z - 233280 * (z div 233280) = z mod 233280" by (simp add: minus_mult_div_eq_mod)
  finally show ?thesis .
qed


















lemma seed_range_state:
  assumes "- 5 \<le> seed" and "seed \<le> 2 ^ 32"
  shows "next_rng (Fin (of_int seed)) = Fin (of_int ((seed * 9301 + 49297) mod 233280))"
proof -
  have "seed * 9301 \<le> 2 ^ 32 * 9301" using assms(2) by simp
  then have b: "\<bar>seed * 9301\<bar> < 2 ^ 53" "\<bar>seed * 9301 + 49297\<bar> < 2 ^ 53"
    using assms(1) by simp_all
  have "d_mul (Fin (of_int seed)) (Fin 9301) = round64 (of_int (seed * 9301))"
    by (simp add: d_mul_def)
  also have "\<dots> = Fin (of_int (seed * 9301))" using b(1) by (rule round64_int)
  finally have m: "d_mul (Fin (of_int seed)) (Fin 9301) = Fin (of_int (seed * 9301))" .
  have "d_add (Fin (of_int (seed * 9301))) (Fin 49297) = round64 (of_int (seed * 9301 + 49297))"
    by (simp add: d_add_def)
  also have "\<dots> = Fin (of_int (seed * 9301 + 49297))" using b(2) by (rule round64_int)
  finally have a: "d_add (Fin (of_int (seed * 9301))) (Fin 49297)
      = Fin (of_int (seed * 9301 + 49297))" .
  have "0 \<le> seed * 9301 + 49297" using assms(1) by simp
  then show ?thesis
    unfolding next_rng_def m a by (rule js_rem_state)
qed








end
